theory Spec2Isabelle
  imports Complex_Main "HOL-Library.List_Lexorder" "HOL-Library.Char_ord"
begin

section \<open>inStrain readComparer: data model\<close>

text \<open>
  A shallow embedding of \<^verbatim>\<open>inStrain/readComparer.py\<close>. Python exceptions are values of
  \<open>py_error\<close>; a function that can raise returns \<open>py_error + 'a\<close> with \<open>Inl\<close> the
  exception. Counts, depths and lengths are natural numbers (they count reads and bases);
  quotients that Python computes in floating point are exact reals here, so rounding is
  abstracted away. A floating-point NaN is \<open>None\<close>.
\<close>

datatype py_error = KeyError | IndexError | ZeroDivisionError | ValueError | AssertionError

text \<open>The base symbols of the variant tables. Per-base count columns exist for
  \<open>A\<close>, \<open>C\<close>, \<open>T\<close> and \<open>G\<close> only; \<open>BaseN\<close> stands for any other symbol.\<close>

datatype base = BaseA | BaseC | BaseT | BaseG | BaseN

text \<open>One row of a sample's cumulative SNV table (the columns the comparison reads).
  \<open>allele_count\<close> and \<open>morphia\<close> are \<open>None\<close> when the table has no such column.\<close>

record snv_row =
  scaffold :: string
  position :: int
  mm :: nat
  conBase :: base
  refBase :: base
  varBase :: base
  baseCoverage :: nat
  cnt_A :: nat
  cnt_C :: nat
  cnt_T :: nat
  cnt_G :: nat
  allele_count :: "nat option"
  morphia :: "nat option"

text \<open>A row of the outer join of two samples' tables on the position. A side without a
  variant row at the position holds NaN in every column: it is \<open>None\<close>.\<close>

record merged_row =
  pos :: int
  side1 :: "snv_row option"
  side2 :: "snv_row option"

text \<open>The detection model: a lookup from total depth to the minimum count. It is built by
  \<^verbatim>\<open>inStrain.profileUtilities.generate_snp_model\<close>, which is not part of this module, so it
  is a parameter; \<open>None\<close> is a depth whose lookup raises.\<close>

type_synonym null_model = "nat \<rightharpoonup> nat"

section \<open>The present test and the SNP classifiers\<close>

text \<open>\<^verbatim>\<open>return (counts >= model[total]) and ((float(counts) / total) >= min_freq)\<close>:
  the lookup comes first, and the division is evaluated only when the first conjunct holds.\<close>

definition is_present :: "nat \<Rightarrow> nat \<Rightarrow> null_model \<Rightarrow> real \<Rightarrow> py_error + bool" where
  "is_present counts tot model min_freq =
     (case model tot of
        None \<Rightarrow> Inl KeyError
      | Some thr \<Rightarrow>
          if counts \<ge> thr
          then (if tot = 0 then Inl ZeroDivisionError
                else Inr (real counts / real tot \<ge> min_freq))
          else Inr False)"

text \<open>\<^verbatim>\<open>row['{0}_1'.format(b)]\<close>: the count column of base \<open>b\<close> on one side.\<close>

definition base_count :: "snv_row \<Rightarrow> base \<Rightarrow> py_error + nat" where
  "base_count r b =
     (case b of BaseA \<Rightarrow> Inr (cnt_A r) | BaseC \<Rightarrow> Inr (cnt_C r)
      | BaseT \<Rightarrow> Inr (cnt_T r) | BaseG \<Rightarrow> Inr (cnt_G r) | BaseN \<Rightarrow> Inl KeyError)"

text \<open>\<^verbatim>\<open>row['conBase_1'] != row['conBase_2']\<close>; NaN differs from everything, itself too.\<close>

definition call_con_snps :: "merged_row \<Rightarrow> bool" where
  "call_con_snps row =
     (case (side1 row, side2 row) of
        (Some r1, Some r2) \<Rightarrow> conBase r1 \<noteq> conBase r2
      | _ \<Rightarrow> True)"

text \<open>The check of one sample's counts for a base: the count lookup, then the present test.\<close>

definition present_in :: "snv_row \<Rightarrow> base \<Rightarrow> null_model \<Rightarrow> real \<Rightarrow> py_error + bool" where
  "present_in r b model min_freq =
     (case base_count r b of
        Inl e \<Rightarrow> Inl e
      | Inr count \<Rightarrow> is_present count (baseCoverage r) model min_freq)"

text \<open>The minor-allele test at the end of \<^verbatim>\<open>call_pop_snps\<close>: the \<^verbatim>\<open>allele_count\<close> columns
  when the merged row has them, else the \<^verbatim>\<open>morphia\<close> columns. \<open>True\<close> when the two samples
  share a minor allele.\<close>

definition shared_minor :: "snv_row \<Rightarrow> snv_row \<Rightarrow> bool" where
  "shared_minor r1 r2 =
     (case (allele_count r1, allele_count r2) of
        (Some a1, Some a2) \<Rightarrow> a1 > 1 \<and> a2 > 1 \<and> varBase r1 = varBase r2
      | _ \<Rightarrow>
         (case (morphia r1, morphia r2) of
            (Some m1, Some m2) \<Rightarrow> m1 > 1 \<and> m2 > 1 \<and> varBase r1 = varBase r2
          | _ \<Rightarrow> False))"

text \<open>\<^verbatim>\<open>call_pop_snps\<close>. With both sides NaN the first lookup is of the column \<^verbatim>\<open>nan_2\<close>,
  a \<open>KeyError\<close>. With both sides called, the first check runs inside \<^verbatim>\<open>try/except\<close>: an
  exception there is printed and the second check follows.\<close>

definition call_pop_snps :: "merged_row \<Rightarrow> null_model \<Rightarrow> real \<Rightarrow> py_error + bool" where
  "call_pop_snps row model min_freq =
     (case (side1 row, side2 row) of
        (None, None) \<Rightarrow> Inl KeyError
      | (None, Some r2) \<Rightarrow>
          (case present_in r2 (refBase r2) model min_freq of
             Inl e \<Rightarrow> Inl e
           | Inr p \<Rightarrow> Inr (\<not> p))
      | (Some r1, None) \<Rightarrow>
          (case present_in r1 (refBase r1) model min_freq of
             Inl e \<Rightarrow> Inl e
           | Inr p \<Rightarrow> Inr (\<not> p))
      | (Some r1, Some r2) \<Rightarrow>
          if conBase r1 = conBase r2 then Inr False
          else if present_in r2 (conBase r1) model min_freq = Inr True then Inr False
          else
            (case present_in r1 (conBase r2) model min_freq of
               Inl e \<Rightarrow> Inl e
             | Inr p \<Rightarrow>
                 if p then Inr False
                 else if shared_minor r1 r2 then Inr False
                 else Inr True))"

section \<open>Coverage overlap\<close>

text \<open>A sparse pandas Series of depths: index (position) and value, one entry per position.
  A coverage table \<^verbatim>\<open>covT\<close> is a dictionary from mismatch level to such a Series holding the
  depth contributed by the reads with exactly that many mismatches.\<close>

type_synonym series = "(int \<times> nat) list"

type_synonym covT = "(nat \<times> series) list"

definition sget :: "series \<Rightarrow> int \<Rightarrow> nat" where
  "sget s p = (case map_of s p of None \<Rightarrow> 0 | Some d \<Rightarrow> d)"

text \<open>\<^verbatim>\<open>a.add(b, fill_value=0)\<close>: the index is the union of the two, a missing value counts 0.
  (pandas sorts the new index; the order is never read.)\<close>

definition series_add :: "series \<Rightarrow> series \<Rightarrow> series" where
  "series_add a b = map (\<lambda>p. (p, sget a p + sget b p)) (remdups (map fst a @ map fst b))"

text \<open>\<^verbatim>\<open>set(cov[(cov >= min_cov)].index)\<close>\<close>

definition covered :: "int \<Rightarrow> series \<Rightarrow> int set" where
  "covered min_cov s = set (map fst (filter (\<lambda>(p, d). min_cov \<le> int d) s))"

text \<open>\<^verbatim>\<open>if mm in covT: cov = cov.add(covT[mm], fill_value=0)\<close>\<close>

definition add_level :: "covT \<Rightarrow> nat \<Rightarrow> series \<Rightarrow> series" where
  "add_level covT m s = (case map_of covT m of None \<Rightarrow> s | Some d \<Rightarrow> series_add s d)"

text \<open>What one iteration of the loop of \<^verbatim>\<open>_calc_mm2overlap\<close> computes.\<close>

record overlap_level =
  lvl_mm :: nat
  lvl_T1 :: "int set"
  lvl_T2 :: "int set"
  coveredInEither :: "int set"
  coveredInBoth :: "int set"
  lvl_cov :: real

definition overlap_level_of :: "int \<Rightarrow> nat \<Rightarrow> series \<Rightarrow> series \<Rightarrow> overlap_level" where
  "overlap_level_of min_cov m cov1 cov2 =
     (let t1 = covered min_cov cov1;
          t2 = covered min_cov cov2;
          either = t1 \<union> t2;
          both = t1 \<inter> t2
      in \<lparr>lvl_mm = m, lvl_T1 = t1, lvl_T2 = t2, coveredInEither = either,
          coveredInBoth = both,
          lvl_cov = (if card either > 0 then real (card both) / real (card either) else 0)\<rparr>)"

text \<open>The loop over the sorted mismatch levels, with the two running cumulative Series.\<close>

fun mm2overlap_loop ::
  "int \<Rightarrow> covT \<Rightarrow> covT \<Rightarrow> nat list \<Rightarrow> series \<Rightarrow> series \<Rightarrow> overlap_level list" where
  "mm2overlap_loop min_cov covT1 covT2 [] cov1 cov2 = []"
| "mm2overlap_loop min_cov covT1 covT2 (m # mms) cov1 cov2 =
     (let cov1' = add_level covT1 m cov1;
          cov2' = add_level covT2 m cov2
      in overlap_level_of min_cov m cov1' cov2'
         # mm2overlap_loop min_cov covT1 covT2 mms cov1' cov2')"

text \<open>\<^verbatim>\<open>mms = sorted(list(set(covT1.keys()).union(set(covT2.keys()))))\<close>\<close>

definition mms_of :: "covT \<Rightarrow> covT \<Rightarrow> nat list" where
  "mms_of covT1 covT2 = sorted_list_of_set (set (map fst covT1) \<union> set (map fst covT2))"

definition overlap_levels :: "int \<Rightarrow> covT \<Rightarrow> covT \<Rightarrow> overlap_level list" where
  "overlap_levels min_cov covT1 covT2 =
     mm2overlap_loop min_cov covT1 covT2 (mms_of covT1 covT2) [] []"

text \<open>\<^verbatim>\<open>_calc_mm2overlap\<close> returns the two dictionaries \<^verbatim>\<open>mm2overlap\<close> and \<^verbatim>\<open>mm2coverage\<close>, here
  in insertion order.\<close>

definition calc_mm2overlap ::
  "covT \<Rightarrow> covT \<Rightarrow> int \<Rightarrow> (nat \<times> int set) list \<times> (nat \<times> real) list" where
  "calc_mm2overlap covT1 covT2 min_cov =
     (let ls = overlap_levels min_cov covT1 covT2
      in (map (\<lambda>l. (lvl_mm l, coveredInBoth l)) ls, map (\<lambda>l. (lvl_mm l, lvl_cov l)) ls))"

text \<open>The claim's words: the cumulative depth of a position at a mismatch level is the sum of
  the depths the table holds for it at the levels up to that one, and a sample's covered
  positions at the level are the positions the table lists up to the level whose cumulative
  depth reaches the minimum.\<close>

definition cum_depth :: "covT \<Rightarrow> nat \<Rightarrow> int \<Rightarrow> nat" where
  "cum_depth covT m p =
     (\<Sum>k \<in> {k \<in> set (map fst covT). k \<le> m}. sget (the (map_of covT k)) p)"

definition listed_upto :: "covT \<Rightarrow> nat \<Rightarrow> int set" where
  "listed_upto covT m =
     (\<Union>k \<in> {k \<in> set (map fst covT). k \<le> m}. set (map fst (the (map_of covT k))))"

definition covered_at :: "int \<Rightarrow> covT \<Rightarrow> nat \<Rightarrow> int set" where
  "covered_at min_cov covT m = {p \<in> listed_upto covT m. min_cov \<le> int (cum_depth covT m p)}"

text \<open>Proof devices: the running Series after a list of levels, and what one level of a
  table contributes at a position.\<close>

definition cum_series :: "covT \<Rightarrow> nat list \<Rightarrow> series \<Rightarrow> series" where
  "cum_series covT ms s = foldl (\<lambda>s m. add_level covT m s) s ms"

definition lev_index :: "covT \<Rightarrow> nat \<Rightarrow> int set" where
  "lev_index covT k = (case map_of covT k of None \<Rightarrow> {} | Some d \<Rightarrow> fst ` set d)"

definition lev_depth :: "covT \<Rightarrow> nat \<Rightarrow> int \<Rightarrow> nat" where
  "lev_depth covT k p = (case map_of covT k of None \<Rightarrow> 0 | Some d \<Rightarrow> sget d p)"

section \<open>Variant tables per mismatch level\<close>

text \<open>The keyword arguments that the comparison reads with \<^verbatim>\<open>kwargs.get(key, default)\<close>;
  \<open>None\<close> is a key the caller did not supply.\<close>

record kwargs =
  kw_min_cov :: "int option"
  kw_min_freq :: "real option"
  kw_fdr :: "real option"
  kw_store_coverage_overlap :: "bool option"
  kw_store_mismatch_locations :: "bool option"
  kw_include_self_comparisons :: "bool option"
  kw_processes :: "int option"
  kw_g_mm :: "nat option"
  kw_greedy_clustering :: "bool option"

definition kwargs_get :: "'a option \<Rightarrow> 'a \<Rightarrow> 'a" where
  "kwargs_get v d = (case v of None \<Rightarrow> d | Some x \<Rightarrow> x)"

text \<open>A sample's profile: the coverage tables by scaffold and the cumulative SNV table.\<close>

record sprofile =
  covT_of :: "(string \<times> covT) list"
  cumulative_snv_table :: "snv_row list"

text \<open>\<^verbatim>\<open>drop_duplicates(subset=key, keep='last')\<close>: a row stays when no later row has its key.\<close>

fun drop_duplicates_last :: "('a \<Rightarrow> 'k) \<Rightarrow> 'a list \<Rightarrow> 'a list" where
  "drop_duplicates_last key [] = []"
| "drop_duplicates_last key (x # xs) =
     (if key x \<in> key ` set xs then drop_duplicates_last key xs
      else x # drop_duplicates_last key xs)"

text \<open>\<^verbatim>\<open>_get_SNP_table\<close>: the table of the global \<^verbatim>\<open>name2SNVprofile\<close> when that global exists
  (\<open>Some\<close>), else the profile's own; the rows of the scaffold, sorted by \<^verbatim>\<open>mm\<close>. The sort
  is modelled as stable; the order of rows with equal \<^verbatim>\<open>mm\<close> matters only for two rows of one
  position and one level.\<close>

definition get_SNP_table ::
  "(string \<rightharpoonup> snv_row list) option \<Rightarrow> sprofile \<Rightarrow> string \<Rightarrow> string \<Rightarrow> py_error + snv_row list" where
  "get_SNP_table name2SNVprofile SNVprofile scaff name =
     (case (case name2SNVprofile of
              Some g \<Rightarrow> (case g name of None \<Rightarrow> Inl KeyError | Some db \<Rightarrow> Inr db)
            | None \<Rightarrow> Inr (cumulative_snv_table SNVprofile)) of
        Inl e \<Rightarrow> Inl e
      | Inr db \<Rightarrow>
          Inr (if length db > 0
               then (let db' = filter (\<lambda>r. scaffold r = scaff) db
                     in if length db' = 0 then [] else sort_key mm db')
               else []))"

text \<open>The rows of one table that a mismatch level of \<^verbatim>\<open>_calc_SNP_count_alternate\<close> uses:
  \<^verbatim>\<open>SNPtable[[p in covs ...]].drop_duplicates(subset=['position'], keep='last')\<close>, or the
  blank table when the table is empty. The level \<^verbatim>\<open>mm\<close> of the iteration is not read here;
  the column \<^verbatim>\<open>mm\<close> is dropped from the result, and no later step reads it.\<close>

definition level_rows :: "snv_row list \<Rightarrow> int set \<Rightarrow> snv_row list" where
  "level_rows SNPtable covs =
     (if length SNPtable > 0
      then drop_duplicates_last position (filter (\<lambda>r. position r \<in> covs) SNPtable)
      else [])"

text \<open>\<^verbatim>\<open>pd.merge(s1_all, s2_all, on='position', how='outer')\<close> of two tables with one row
  per position: one row per position of either, in the order of the positions.\<close>

definition merge_outer :: "snv_row list \<Rightarrow> snv_row list \<Rightarrow> merged_row list" where
  "merge_outer s1 s2 =
     map (\<lambda>p. \<lparr>pos = p, side1 = find (\<lambda>r. position r = p) s1,
                       side2 = find (\<lambda>r. position r = p) s2\<rparr>)
       (sort (remdups (map position s1 @ map position s2)))"

text \<open>A row of \<^verbatim>\<open>Mdb\<close>: the merged row, the two flags and the level.\<close>

record mdb_row =
  m_row :: merged_row
  consensus_SNP :: bool
  population_SNP :: bool
  m_mm :: nat

text \<open>Applying a function that may raise to every element, in order.\<close>

fun map_result :: "('a \<Rightarrow> 'e + 'b) \<Rightarrow> 'a list \<Rightarrow> 'e + 'b list" where
  "map_result f [] = Inr []"
| "map_result f (x # xs) =
     (case f x of
        Inl e \<Rightarrow> Inl e
      | Inr y \<Rightarrow> (case map_result f xs of Inl e \<Rightarrow> Inl e | Inr ys \<Rightarrow> Inr (y # ys)))"

text \<open>The body of the loop of \<^verbatim>\<open>_calc_SNP_count_alternate\<close> for one level.\<close>

definition level_Mdb ::
  "snv_row list \<Rightarrow> snv_row list \<Rightarrow> null_model \<Rightarrow> real \<Rightarrow> nat \<times> int set \<Rightarrow> py_error + mdb_row list" where
  "level_Mdb SNPtable1 SNPtable2 model min_freq lv =
     (let covs = snd lv;
          s1_all = level_rows SNPtable1 covs;
          s2_all = level_rows SNPtable2 covs
      in if length s1_all = 0 \<and> length s2_all = 0 then Inr []
         else map_result
                (\<lambda>row. case call_pop_snps row model min_freq of
                          Inl e \<Rightarrow> Inl e
                        | Inr ps \<Rightarrow> Inr \<lparr>m_row = row, consensus_SNP = call_con_snps row,
                                         population_SNP = ps, m_mm = fst lv\<rparr>)
                (merge_outer s1_all s2_all))"

text \<open>\<^verbatim>\<open>_calc_SNP_count_alternate\<close>: \<^verbatim>\<open>pd.concat\<close> of an empty list raises \<open>ValueError\<close>.\<close>

definition calc_SNP_count_alternate ::
  "snv_row list \<Rightarrow> snv_row list \<Rightarrow> (nat \<times> int set) list \<Rightarrow> real \<Rightarrow> null_model
   \<Rightarrow> py_error + mdb_row list" where
  "calc_SNP_count_alternate SNPtable1 SNPtable2 mm2overlap min_freq model =
     (case map_result (level_Mdb SNPtable1 SNPtable2 model min_freq) mm2overlap of
        Inl e \<Rightarrow> Inl e
      | Inr dbs \<Rightarrow> if dbs = [] then Inl ValueError else Inr (concat dbs))"

section \<open>The comparison table\<close>

record comparison_row =
  c_mm :: nat
  c_scaffold :: string
  name1 :: string
  name2 :: string
  coverage_overlap :: real
  compared_bases_count :: nat
  percent_genome_compared :: real
  c_length :: nat
  consensus_SNPs :: nat
  population_SNPs :: nat
  popANI :: "real option"
  conANI :: "real option"

text \<open>The row that \<^verbatim>\<open>_update_overlap_table\<close> appends for one level. \<^verbatim>\<open>mm2coverage[mm]\<close> can
  raise \<open>KeyError\<close> and \<^verbatim>\<open>bases/mLen\<close> \<open>ZeroDivisionError\<close>. The differences
  \<^verbatim>\<open>bases - snps\<close> are Python integers.\<close>

definition overlap_table_row ::
  "string \<Rightarrow> (nat \<times> real) list \<Rightarrow> mdb_row list \<Rightarrow> string \<Rightarrow> string \<Rightarrow> nat
   \<Rightarrow> nat \<times> int set \<Rightarrow> py_error + comparison_row" where
  "overlap_table_row scaff mm2coverage Mdb n1 n2 mLen lv =
     (let bases = card (snd lv);
          mdb = filter (\<lambda>r. m_mm r = fst lv) Mdb
      in case map_of mm2coverage (fst lv) of
           None \<Rightarrow> Inl KeyError
         | Some cov \<Rightarrow>
             if mLen = 0 then Inl ZeroDivisionError
             else
               (let snps = length (filter (\<lambda>r. consensus_SNP r) mdb);
                    popsnps = length (filter (\<lambda>r. population_SNP r) mdb)
                in Inr \<lparr>c_mm = fst lv, c_scaffold = scaff, name1 = n1, name2 = n2,
                     coverage_overlap = cov, compared_bases_count = bases,
                     percent_genome_compared = real bases / real mLen, c_length = mLen,
                     consensus_SNPs = snps, population_SNPs = popsnps,
                     popANI = (if bases = 0 then None
                               else Some (real_of_int (int bases - int popsnps) / real bases)),
                     conANI = (if bases = 0 then None
                               else Some (real_of_int (int bases - int snps) / real bases))\<rparr>))"

definition update_overlap_table ::
  "comparison_row list \<Rightarrow> string \<Rightarrow> (nat \<times> int set) list \<Rightarrow> (nat \<times> real) list
   \<Rightarrow> mdb_row list \<Rightarrow> string \<Rightarrow> string \<Rightarrow> nat \<Rightarrow> py_error + comparison_row list" where
  "update_overlap_table table scaff mm2overlap mm2coverage Mdb n1 n2 mLen =
     (case map_result (overlap_table_row scaff mm2coverage Mdb n1 n2 mLen) mm2overlap of
        Inl e \<Rightarrow> Inl e
      | Inr rows \<Rightarrow> Inr (table @ rows))"

section \<open>Comparing one scaffold\<close>

text \<open>What \<^verbatim>\<open>scaffold_profile_wrapper\<close> returns: the four-element list
  \<^verbatim>\<open>[Cdb, Mdb, pair2mm2covOverlap, scaffold]\<close> of \<^verbatim>\<open>compare_scaffold\<close> (with the name
  \<^verbatim>\<open>skip_<scaffold>\<close> in the fourth place for a skipped scaffold), or the one-row
  data frame \<^verbatim>\<open>pd.DataFrame({'Failed':[True]})\<close> after an exception.\<close>

type_synonym snp_loc = "mdb_row \<times> string \<times> string \<times> string"

datatype scaff_profile =
  Profile (p_Cdb: "comparison_row list") (p_Mdb: "snp_loc list")
          (p_cov: "(string \<times> (nat \<times> int set) list) list") (p_name: string)
| FailedFrame

text \<open>Assignment to a dictionary key, the dictionary in insertion order.\<close>

definition dict_set :: "'k \<Rightarrow> 'v \<Rightarrow> ('k \<times> 'v) list \<Rightarrow> ('k \<times> 'v) list" where
  "dict_set k v d =
     (if k \<in> fst ` set d then map (\<lambda>(k', v'). if k' = k then (k, v) else (k', v')) d
      else d @ [(k, v)])"

text \<open>\<^verbatim>\<open>'-vs-'.join(sorted([name1, name2]))\<close>\<close>

definition pair_key :: "string \<Rightarrow> string \<Rightarrow> string" where
  "pair_key n1 n2 = (if n1 \<le> n2 then n1 @ ''-vs-'' @ n2 else n2 @ ''-vs-'' @ n1)"

text \<open>A loop whose body may raise: the state is threaded until the first exception.\<close>

fun fold_result :: "('a \<Rightarrow> 's \<Rightarrow> 'e + 's) \<Rightarrow> 'a list \<Rightarrow> 's \<Rightarrow> 'e + 's" where
  "fold_result f [] s = Inr s"
| "fold_result f (x # xs) s =
     (case f x s of Inl e \<Rightarrow> Inl e | Inr s' \<Rightarrow> fold_result f xs s')"

text \<open>The first loop of \<^verbatim>\<open>compare_scaffold\<close>: the samples that have a coverage table for the
  scaffold, each with its table of variants.\<close>

fun load_samples ::
  "(string \<rightharpoonup> snv_row list) option \<Rightarrow> string \<Rightarrow> (sprofile \<times> string) list
   \<Rightarrow> py_error + (covT \<times> snv_row list \<times> string) list" where
  "load_samples g scaff [] = Inr []"
| "load_samples g scaff ((S, name) # rest) =
     (case map_of (covT_of S) scaff of
        None \<Rightarrow> load_samples g scaff rest
      | Some covT \<Rightarrow>
          (case get_SNP_table g S scaff name of
             Inl e \<Rightarrow> Inl e
           | Inr db \<Rightarrow>
               (case load_samples g scaff rest of
                  Inl e \<Rightarrow> Inl e
                | Inr xs \<Rightarrow> Inr ((covT, db, name) # xs))))"

text \<open>The pairs that the nested loops reach: \<open>i \<le> j\<close>, and \<open>i \<noteq> j\<close> unless
  self-comparisons are included.\<close>

definition sample_pairs :: "bool \<Rightarrow> 'a list \<Rightarrow> ('a \<times> 'a) list" where
  "sample_pairs include_self xs =
     concat (map (\<lambda>i. concat (map (\<lambda>j.
        if i > j then []
        else if \<not> include_self \<and> i = j then []
        else [(xs ! i, xs ! j)]) [0..<length xs])) [0..<length xs])"

type_synonym scaffold_state =
  "comparison_row list \<times> snp_loc list list \<times> (string \<times> (nat \<times> int set) list) list"

text \<open>The body of the inner loop for one pair of samples.\<close>

definition compare_pair ::
  "null_model \<Rightarrow> string \<Rightarrow> nat \<Rightarrow> int \<Rightarrow> real \<Rightarrow> bool \<Rightarrow> bool
   \<Rightarrow> (covT \<times> snv_row list \<times> string) \<times> (covT \<times> snv_row list \<times> string)
   \<Rightarrow> scaffold_state \<Rightarrow> py_error + scaffold_state" where
  "compare_pair model scaff mLen min_cov min_freq store_mm_locations store_coverage pr st =
     (case (pr, st) of
        (((covT1, SNPtable1, n1), (covT2, SNPtable2, n2)), (table, snpLocs, pair2mm2covOverlap)) \<Rightarrow>
          (let (mm2overlap, mm2coverage) = calc_mm2overlap covT1 covT2 min_cov
           in case calc_SNP_count_alternate SNPtable1 SNPtable2 mm2overlap min_freq model of
                Inl e \<Rightarrow> Inl e
              | Inr Mdb \<Rightarrow>
                  (case update_overlap_table table scaff mm2overlap mm2coverage Mdb n1 n2 mLen of
                     Inl e \<Rightarrow> Inl e
                   | Inr table' \<Rightarrow>
                       Inr (table',
                            (if store_mm_locations
                             then snpLocs @ [map (\<lambda>r. (r, n1, n2, scaff)) Mdb] else snpLocs),
                            (if store_coverage
                             then dict_set (pair_key n1 n2) mm2overlap pair2mm2covOverlap
                             else pair2mm2covOverlap)))))"

text \<open>\<^verbatim>\<open>compare_scaffold\<close>. The detection model comes from \<^verbatim>\<open>generate_snp_model\<close> at the
  false-discovery rate \<^verbatim>\<open>fdr\<close>: the parameter \<open>gen_model\<close>.\<close>

definition compare_scaffold ::
  "(real \<Rightarrow> null_model) \<Rightarrow> (string \<rightharpoonup> snv_row list) option
   \<Rightarrow> string \<Rightarrow> string list \<Rightarrow> sprofile list \<Rightarrow> nat \<Rightarrow> kwargs \<Rightarrow> py_error + scaff_profile" where
  "compare_scaffold gen_model g scaff names sProfiles mLen kw =
     (let min_cov = kwargs_get (kw_min_cov kw) 5;
          min_freq = kwargs_get (kw_min_freq kw) 5;
          fdr = kwargs_get (kw_fdr kw) (1 / 10 ^ 6);
          store_coverage = kwargs_get (kw_store_coverage_overlap kw) False;
          store_mm_locations = kwargs_get (kw_store_mismatch_locations kw) False;
          include_self_comparisons = kwargs_get (kw_include_self_comparisons kw) False
      in case load_samples g scaff (zip sProfiles names) of
           Inl e \<Rightarrow> Inl e
         | Inr cur \<Rightarrow>
             if length cur < 2 then Inr (Profile [] [] [] (''skip_'' @ scaff))
             else
               (case fold_result
                       (compare_pair (gen_model fdr) scaff mLen min_cov min_freq
                          store_mm_locations store_coverage)
                       (sample_pairs include_self_comparisons cur) ([], [], []) of
                  Inl e \<Rightarrow> Inl e
                | Inr (table, snpLocs, pair2mm2covOverlap) \<Rightarrow>
                    Inr (Profile table (concat snpLocs) pair2mm2covOverlap scaff)))"

section \<open>Genome-wide aggregation\<close>

text \<open>The rows that \<^verbatim>\<open>calc_cov_ani\<close> keeps:
  \<^verbatim>\<open>Cdb[Cdb['mm'] <= g_mm].sort_values('mm').drop_duplicates(subset=['scaffold', 'name1',
  'name2'], keep='last')\<close>. The sort is modelled as stable; which of two rows with the same
  key and the same level is kept depends on it.\<close>

definition pair_of_row :: "comparison_row \<Rightarrow> string \<times> string \<times> string" where
  "pair_of_row r = (c_scaffold r, name1 r, name2 r)"

definition kept_rows :: "nat \<Rightarrow> comparison_row list \<Rightarrow> comparison_row list" where
  "kept_rows g_mm Cdb =
     drop_duplicates_last pair_of_row (sort_key c_mm (filter (\<lambda>r. c_mm r \<le> g_mm) Cdb))"

text \<open>\<^verbatim>\<open>sum(a * c if a == a else 0 for a, c in zip(db['popANI'], db['compared_bases_count']))\<close>:
  a NaN differs from itself.\<close>

definition weighted_popANI :: "comparison_row list \<Rightarrow> real" where
  "weighted_popANI db =
     sum_list (map (\<lambda>r. case popANI r of
                           None \<Rightarrow> 0
                         | Some a \<Rightarrow> a * real (compared_bases_count r)) db)"

text \<open>\<^verbatim>\<open>calc_cov_ani\<close> returns the pair of genome popANI (NaN at zero compared bases) and
  genome coverage; a genome length of zero leaves the last quotient without a value.\<close>

definition calc_cov_ani ::
  "comparison_row list \<Rightarrow> nat \<Rightarrow> kwargs \<Rightarrow> py_error + (real option \<times> real)" where
  "calc_cov_ani Cdb BIN_LENGTH kw =
     (let g_mm = kwargs_get (kw_g_mm kw) 100;
          db = kept_rows g_mm Cdb;
          tcb = sum_list (map compared_bases_count db);
          pa = (if tcb = 0 then None else Some (weighted_popANI db / real tcb))
      in if BIN_LENGTH = 0 then Inl ZeroDivisionError
         else Inr (pa, real tcb / real BIN_LENGTH))"

section \<open>Scheduling the scaffolds\<close>

text \<open>The command object of one scaffold, as \<^verbatim>\<open>iterate_commands\<close> fills it.\<close>

record command =
  cmd_scaffold :: string
  cmd_names :: "string list"
  cmd_sProfiles :: "sprofile list"
  cmd_arguments :: kwargs
  cmd_mLen :: nat

definition make_command ::
  "string list \<Rightarrow> sprofile list \<Rightarrow> (string \<times> nat) list \<Rightarrow> kwargs \<Rightarrow> string \<Rightarrow> py_error + command" where
  "make_command names sProfiles s2l kw scaff =
     (if length sProfiles < length names then Inl IndexError
      else case map_of s2l scaff of
             None \<Rightarrow> Inl KeyError
           | Some l \<Rightarrow>
               Inr \<lparr>cmd_scaffold = scaff, cmd_names = names,
                    cmd_sProfiles = take (length names) sProfiles,
                    cmd_arguments = kw, cmd_mLen = l\<rparr>)"

definition iterate_commands ::
  "string list \<Rightarrow> sprofile list \<Rightarrow> (string \<times> nat) list \<Rightarrow> string list \<Rightarrow> kwargs
   \<Rightarrow> py_error + command list" where
  "iterate_commands names sProfiles s2l scaffolds_to_compare kw =
     map_result (make_command names sProfiles s2l kw) scaffolds_to_compare"

text \<open>\<^verbatim>\<open>scaffold_profile_wrapper\<close>: an exception of \<^verbatim>\<open>compare_scaffold\<close> becomes the one-row
  data frame.\<close>

definition scaffold_profile_wrapper ::
  "(real \<Rightarrow> null_model) \<Rightarrow> (string \<rightharpoonup> snv_row list) option \<Rightarrow> command \<Rightarrow> scaff_profile" where
  "scaffold_profile_wrapper gen_model g cmd =
     (case compare_scaffold gen_model g (cmd_scaffold cmd) (cmd_names cmd) (cmd_sProfiles cmd)
             (cmd_mLen cmd) (cmd_arguments cmd) of
        Inl e \<Rightarrow> FailedFrame
      | Inr r \<Rightarrow> r)"

text \<open>\<^verbatim>\<open>s[3]\<close>: the fourth element of the list, or column 3 of the one-row data frame, which
  it does not have.\<close>

definition profile_name :: "scaff_profile \<Rightarrow> py_error + string" where
  "profile_name s = (case s of Profile c m v n \<Rightarrow> Inr n | FailedFrame \<Rightarrow> Inl KeyError)"

text \<open>The last loop of \<^verbatim>\<open>compare_scaffolds\<close>: a profile that is not a list of four, and a
  skipped one, contribute nothing.\<close>

definition collected :: "scaff_profile list \<Rightarrow> scaff_profile list" where
  "collected ps =
     filter (\<lambda>s. case s of Profile c m v n \<Rightarrow> take 4 n \<noteq> ''skip'' | FailedFrame \<Rightarrow> False) ps"

text \<open>\<^verbatim>\<open>compare_scaffolds\<close>. With more than one process the first pass runs on a process pool;
  \<open>lost\<close> tells for which scaffolds the future raised instead of returning (logged, nothing
  appended). The retry runs the same wrapper on a thread pool. The order in which futures
  complete is the order of submission here.\<close>

definition compare_scaffolds ::
  "(real \<Rightarrow> null_model) \<Rightarrow> (string \<rightharpoonup> snv_row list) option \<Rightarrow> (string \<Rightarrow> bool)
   \<Rightarrow> string list \<Rightarrow> sprofile list \<Rightarrow> string list \<Rightarrow> (string \<times> nat) list \<Rightarrow> kwargs
   \<Rightarrow> py_error + (comparison_row list \<times> snp_loc list
                   \<times> (string \<times> (string \<times> (nat \<times> int set) list) list) list)" where
  "compare_scaffolds gen_model g lost names Sprofiles scaffolds_to_compare s2l kw =
     (let p = kwargs_get (kw_processes kw) 6
      in case iterate_commands names Sprofiles s2l scaffolds_to_compare kw of
           Inl e \<Rightarrow> Inl e
         | Inr cmds \<Rightarrow>
             (let first_pass =
                    (if p > 1
                     then map (scaffold_profile_wrapper gen_model g)
                            (filter (\<lambda>c. \<not> lost (cmd_scaffold c)) cmds)
                     else map (scaffold_profile_wrapper gen_model g) cmds)
              in case map_result profile_name first_pass of
                   Inl e \<Rightarrow> Inl e
                 | Inr ns \<Rightarrow>
                     (let skipped = set (map (drop 5) (filter (\<lambda>n. take 4 n = ''skip'') ns));
                          failed_scaffs =
                            filter (\<lambda>s. s \<notin> set ns \<and> s \<notin> skipped) (remdups scaffolds_to_compare)
                      in case (if length failed_scaffs > 0
                               then (case iterate_commands names Sprofiles s2l failed_scaffs kw of
                                       Inl e \<Rightarrow> Inl e
                                     | Inr cmds2 \<Rightarrow>
                                         Inr (first_pass
                                              @ map (scaffold_profile_wrapper gen_model g) cmds2))
                               else Inr first_pass) of
                            Inl e \<Rightarrow> Inl e
                          | Inr ScaffProfiles \<Rightarrow>
                              (let good = collected ScaffProfiles
                               in if good = [] then Inl ValueError
                                  else Inr (concat (map p_Cdb good), concat (map p_Mdb good),
                                            foldl (\<lambda>d s. dict_set (p_name s) (p_cov s) d) [] good)))))"

section \<open>The entry point\<close>

text \<open>The body of \<^verbatim>\<open>main\<close> as a list of statements, so that the statements behind a
  \<^verbatim>\<open>return\<close> are part of the model. A run produces the effects in order and ends by
  returning, by raising, or by reaching the end (\<open>None\<close>). \<open>Created_output_profile\<close> is
  \<^verbatim>\<open>RCprof = inStrain.SNVprofile.SNVprofile(outbase)\<close> and \<open>Set_up_logger\<close> the call of
  \<^verbatim>\<open>setup_logger\<close> on the profile's log file, both in \<^verbatim>\<open>parse_validate\<close>;
  \<open>Printed_not_available\<close> is the one \<^verbatim>\<open>print\<close> of \<^verbatim>\<open>main\<close>, of the line that greedy
  clustering is not available at the moment.\<close>

datatype effect =
  Created_output_profile | Set_up_logger | Printed_not_available | Ran_greedy_main
| Ran_compare_scaffolds | Stored string | Wrote_csv string

datatype stmt = Do effect | Return | Raise py_error | IfThen bool "stmt list"

fun exec :: "stmt list \<Rightarrow> effect list \<times> (py_error + unit) option" where
  "exec [] = ([], None)"
| "exec (Do e # rest) = (let (es, out) = exec rest in (e # es, out))"
| "exec (Return # rest) = ([], Some (Inr ()))"
| "exec (Raise e # rest) = ([], Some (Inl e))"
| "exec (IfThen c body # rest) =
     (if c
      then (case exec body of
              (es, None) \<Rightarrow> (let (es', out) = exec rest in (es @ es', out))
            | (es, Some out) \<Rightarrow> (es, Some out))
      else exec rest)"

text \<open>How the arguments fare in \<^verbatim>\<open>parse_validate\<close>: fewer than two inputs fail the first
  assertion, before anything is set up; the later assertions (scaffold lengths that differ
  between samples, no scaffold shared) fail after the output profile and the logger are set
  up; else the arguments are validated.\<close>

datatype validation = Too_few_inputs | Failed_after_setup | Validated

definition parse_validate :: "validation \<Rightarrow> stmt list" where
  "parse_validate v =
     [IfThen (v = Too_few_inputs) [Raise AssertionError],
      Do Created_output_profile,
      Do Set_up_logger,
      IfThen (v = Failed_after_setup) [Raise AssertionError]]"

text \<open>\<^verbatim>\<open>main\<close>: \<^verbatim>\<open>parse_validate\<close> first, then the greedy test. \<open>comparison\<close> is the exception
  of \<^verbatim>\<open>compare_scaffolds\<close>, if it raises one; the two flags are
  \<^verbatim>\<open>args.store_mismatch_locations\<close> and \<^verbatim>\<open>args.store_coverage_overlap\<close>.\<close>

definition main_body ::
  "validation \<Rightarrow> py_error option \<Rightarrow> kwargs \<Rightarrow> bool \<Rightarrow> bool \<Rightarrow> stmt list" where
  "main_body v comparison vargs store_mismatch_locations store_coverage_overlap =
     parse_validate v @
     [IfThen (kwargs_get (kw_greedy_clustering vargs) False)
        [Do Printed_not_available,
         Return,
         Do Ran_greedy_main,
         Return],
      Do Ran_compare_scaffolds] @
     (case comparison of None \<Rightarrow> [] | Some e \<Rightarrow> [Raise e]) @
     [Do (Stored ''comparisonsTable''),
      Do (Stored ''scaffold2length''),
      Do (Wrote_csv ''comparisonsTable.tsv''),
      IfThen store_mismatch_locations [Do (Stored ''pairwise_SNP_locations'')],
      IfThen store_coverage_overlap [Do (Stored ''scaff2pair2mm2cov'')]]"

definition main ::
  "validation \<Rightarrow> py_error option \<Rightarrow> kwargs \<Rightarrow> bool \<Rightarrow> bool
   \<Rightarrow> effect list \<times> (py_error + unit) option" where
  "main v comparison vargs store_mismatch_locations store_coverage_overlap =
     exec (main_body v comparison vargs store_mismatch_locations store_coverage_overlap)"

text \<open>What \<^verbatim>\<open>_update_overlap_table\<close> establishes for a row: no ANI at zero compared bases,
  else the two quotients, with no more SNPs than compared bases.\<close>

definition row_ok :: "comparison_row \<Rightarrow> bool" where
  "row_ok r \<longleftrightarrow>
     (if compared_bases_count r = 0 then conANI r = None \<and> popANI r = None
      else conANI r = Some (real_of_int (int (compared_bases_count r) - int (consensus_SNPs r))
                            / real (compared_bases_count r))
         \<and> popANI r = Some (real_of_int (int (compared_bases_count r) - int (population_SNPs r))
                            / real (compared_bases_count r))
         \<and> consensus_SNPs r \<le> compared_bases_count r
         \<and> population_SNPs r \<le> compared_bases_count r)"

section \<open>Sample inputs\<close>

text \<open>Two coverage tables: in the first sample position 2 reaches depth 5 only with the reads
  that have one mismatch.\<close>

definition w_covT1 :: covT where
  "w_covT1 = [(0, [(1, 5), (2, 3)]), (1, [(2, 2)])]"

definition w_covT2 :: covT where
  "w_covT2 = [(0, [(1, 6), (2, 6)])]"

definition w_level0 :: overlap_level where
  "w_level0 = \<lparr>lvl_mm = 0, lvl_T1 = {1}, lvl_T2 = {1, 2}, coveredInEither = {1, 2},
     coveredInBoth = {1}, lvl_cov = 1 / 2\<rparr>"

definition w_level1 :: overlap_level where
  "w_level1 = \<lparr>lvl_mm = 1, lvl_T1 = {1, 2}, lvl_T2 = {1, 2}, coveredInEither = {1, 2},
     coveredInBoth = {1, 2}, lvl_cov = 1\<rparr>"

text \<open>Two samples on the scaffold \<^verbatim>\<open>chr1\<close>. Sample A covers positions 10 to 12 at depth 10 and
  has no variant. Sample B covers 10 and 11 at depth 10, and 12 at depth 6 once the reads
  with one mismatch count; at position 10 it has the consensus C on the reference A, with 6
  of 10 reads on C and 4 on A. The detection model asks for 3 reads at every depth.\<close>

definition w_snv :: snv_row where
  "w_snv = \<lparr>scaffold = ''chr1'', position = 10, mm = 0, conBase = BaseC, refBase = BaseA,
     varBase = BaseA, baseCoverage = 10, cnt_A = 4, cnt_C = 6, cnt_T = 0, cnt_G = 0,
     allele_count = Some 2, morphia = None\<rparr>"

definition w_profA :: sprofile where
  "w_profA = \<lparr>covT_of = [(''chr1'', [(0, [(10, 10), (11, 10), (12, 10)])])],
     cumulative_snv_table = []\<rparr>"

definition w_profB :: sprofile where
  "w_profB = \<lparr>covT_of = [(''chr1'', [(0, [(10, 10), (11, 10), (12, 3)]), (1, [(12, 3)])])],
     cumulative_snv_table = [w_snv]\<rparr>"

definition w_model :: null_model where
  "w_model = (\<lambda>d. Some 3)"

definition w_gen_model :: "real \<Rightarrow> null_model" where
  "w_gen_model = (\<lambda>fdr. w_model)"

text \<open>No keyword argument supplied.\<close>

definition w_kwargs :: kwargs where
  "w_kwargs = \<lparr>kw_min_cov = None, kw_min_freq = None, kw_fdr = None,
     kw_store_coverage_overlap = None, kw_store_mismatch_locations = None,
     kw_include_self_comparisons = None, kw_processes = None, kw_g_mm = None,
     kw_greedy_clustering = None\<rparr>"

definition w_row0 :: comparison_row where
  "w_row0 = \<lparr>c_mm = 0, c_scaffold = ''chr1'', name1 = ''A'', name2 = ''B'',
     coverage_overlap = 2 / 3, compared_bases_count = 2, percent_genome_compared = 2 / 100,
     c_length = 100, consensus_SNPs = 1, population_SNPs = 1,
     popANI = Some (1 / 2), conANI = Some (1 / 2)\<rparr>"

definition w_row1 :: comparison_row where
  "w_row1 = \<lparr>c_mm = 1, c_scaffold = ''chr1'', name1 = ''A'', name2 = ''B'',
     coverage_overlap = 1, compared_bases_count = 3, percent_genome_compared = 3 / 100,
     c_length = 100, consensus_SNPs = 1, population_SNPs = 1,
     popANI = Some (2 / 3), conANI = Some (2 / 3)\<rparr>"




text \<open>Two rows of one scaffold and one pair of samples, at the mismatch levels 2 and 5.\<close>

definition w_ani2 :: comparison_row where
  "w_ani2 = \<lparr>c_mm = 2, c_scaffold = ''chr1'', name1 = ''A'', name2 = ''B'',
     coverage_overlap = 1 / 2, compared_bases_count = 500, percent_genome_compared = 1 / 2,
     c_length = 1000, consensus_SNPs = 50, population_SNPs = 50,
     popANI = Some (9 / 10), conANI = Some (9 / 10)\<rparr>"

definition w_ani5 :: comparison_row where
  "w_ani5 = \<lparr>c_mm = 5, c_scaffold = ''chr1'', name1 = ''A'', name2 = ''B'',
     coverage_overlap = 3 / 5, compared_bases_count = 600, percent_genome_compared = 3 / 5,
     c_length = 1000, consensus_SNPs = 30, population_SNPs = 30,
     popANI = Some (19 / 20), conANI = Some (19 / 20)\<rparr>"

text \<open>The two samples with a second scaffold \<^verbatim>\<open>chr2\<close>, where sample B has a variant on a
  reference base that is none of A, C, T, G.\<close>

definition w_snv_N :: snv_row where
  "w_snv_N = \<lparr>scaffold = ''chr2'', position = 5, mm = 0, conBase = BaseC, refBase = BaseN,
     varBase = BaseA, baseCoverage = 10, cnt_A = 4, cnt_C = 6, cnt_T = 0, cnt_G = 0,
     allele_count = Some 2, morphia = None\<rparr>"

definition w_profA2 :: sprofile where
  "w_profA2 = \<lparr>covT_of = [(''chr1'', [(0, [(10, 10), (11, 10), (12, 10)])]),
                          (''chr2'', [(0, [(5, 10)])])],
     cumulative_snv_table = []\<rparr>"

definition w_profB2 :: sprofile where
  "w_profB2 = \<lparr>covT_of = [(''chr1'', [(0, [(10, 10), (11, 10), (12, 3)]), (1, [(12, 3)])]),
                          (''chr2'', [(0, [(5, 10)])])],
     cumulative_snv_table = [w_snv, w_snv_N]\<rparr>"

definition w_s2l :: "(string \<times> nat) list" where
  "w_s2l = [(''chr1'', 100), (''chr2'', 50)]"

text \<open>A sample whose table has two rows at position 10: consensus A when only the reads
  without mismatch count, consensus C with the reads of up to three mismatches.\<close>

definition w_snv_mm0 :: snv_row where
  "w_snv_mm0 = \<lparr>scaffold = ''chr1'', position = 10, mm = 0, conBase = BaseA, refBase = BaseA,
     varBase = BaseC, baseCoverage = 10, cnt_A = 8, cnt_C = 2, cnt_T = 0, cnt_G = 0,
     allele_count = Some 2, morphia = None\<rparr>"

definition w_snv_mm3 :: snv_row where
  "w_snv_mm3 = \<lparr>scaffold = ''chr1'', position = 10, mm = 3, conBase = BaseC, refBase = BaseA,
     varBase = BaseA, baseCoverage = 20, cnt_A = 8, cnt_C = 12, cnt_T = 0, cnt_G = 0,
     allele_count = Some 2, morphia = None\<rparr>"

definition w_profC :: sprofile where
  "w_profC = \<lparr>covT_of = [(''chr1'', [(0, [(10, 10)]), (3, [(10, 10)])])],
     cumulative_snv_table = [w_snv_mm3, w_snv_mm0]\<rparr>"

section \<open>Coverage overlap: the loop and the cumulative depths\<close>

lemma index_series_add: "map fst (series_add a b) = remdups (map fst a @ map fst b)"
  by (simp add: series_add_def comp_def)

lemma sget_notin: "p \<notin> fst ` set s \<Longrightarrow> sget s p = 0"
  by (simp add: sget_def map_of_eq_None_iff[THEN iffD2])

lemma sget_series_add: "sget (series_add a b) p = sget a p + sget b p"
proof (cases "p \<in> fst ` set a \<union> fst ` set b")
  case True
  then have "map_of (series_add a b) p = Some (sget a p + sget b p)"
    unfolding series_add_def by (subst map_of_map_restrict) (auto simp: restrict_map_def)
  then show ?thesis by (simp add: sget_def)
next
  case False
  then have "p \<notin> fst ` set (series_add a b)"
    using index_series_add[of a b] by (metis list.set_map set_append set_remdups)
  with False show ?thesis by (simp add: sget_notin)
qed

lemma covered_distinct:
  "distinct (map fst s) \<Longrightarrow> covered c s = {p \<in> fst ` set s. c \<le> int (sget s p)}"
  by (auto simp: covered_def sget_def image_iff)

lemma distinct_series_add: "distinct (map fst (series_add a b))"
  by (simp add: index_series_add)

lemma index_set_series_add: "fst ` set (series_add a b) = fst ` set a \<union> fst ` set b"
  using index_series_add[of a b] by (metis list.set_map set_append set_remdups)

lemma distinct_add_level: "distinct (map fst s) \<Longrightarrow> distinct (map fst (add_level covT m s))"
  by (simp add: add_level_def distinct_series_add split: option.splits)

lemma index_add_level: "fst ` set (add_level covT m s) = fst ` set s \<union> lev_index covT m"
  by (simp add: add_level_def lev_index_def index_set_series_add split: option.splits)

lemma sget_add_level: "sget (add_level covT m s) p = sget s p + lev_depth covT m p"
  by (simp add: add_level_def lev_depth_def sget_series_add split: option.splits)

lemma distinct_cum_series:
  "distinct (map fst s) \<Longrightarrow> distinct (map fst (cum_series covT ms s))"
  unfolding cum_series_def by (induction ms arbitrary: s) (simp_all add: distinct_add_level)

lemma index_cum_series:
  "fst ` set (cum_series covT ms s) = fst ` set s \<union> (\<Union>k \<in> set ms. lev_index covT k)"
  unfolding cum_series_def by (induction ms arbitrary: s) (auto simp: index_add_level)

lemma sget_cum_series:
  "distinct ms \<Longrightarrow> sget (cum_series covT ms s) p = sget s p + (\<Sum>k \<in> set ms. lev_depth covT k p)"
  unfolding cum_series_def by (induction ms arbitrary: s) (simp_all add: sget_add_level)

lemma cum_series_snoc: "cum_series covT (ms @ [m]) s = add_level covT m (cum_series covT ms s)"
  by (simp add: cum_series_def)

lemma loop_levels:
  "l \<in> set (mm2overlap_loop c covT1 covT2 mms s1 s2) \<Longrightarrow>
   \<exists>ms1 ms2. mms = ms1 @ lvl_mm l # ms2 \<and>
     l = overlap_level_of c (lvl_mm l) (cum_series covT1 (ms1 @ [lvl_mm l]) s1)
           (cum_series covT2 (ms1 @ [lvl_mm l]) s2)"
proof (induction mms arbitrary: s1 s2)
  case Nil
  then show ?case by simp
next
  case (Cons m mms)
  let ?s1 = "add_level covT1 m s1" and ?s2 = "add_level covT2 m s2"
  from Cons.prems consider
    (here) "l = overlap_level_of c m ?s1 ?s2"
    | (later) "l \<in> set (mm2overlap_loop c covT1 covT2 mms ?s1 ?s2)"
    by (auto simp: Let_def)
  then show ?case
  proof cases
    case here
    then have "lvl_mm l = m" by (simp add: overlap_level_of_def Let_def)
    with here have "m # mms = [] @ lvl_mm l # mms \<and>
      l = overlap_level_of c (lvl_mm l) (cum_series covT1 ([] @ [lvl_mm l]) s1)
           (cum_series covT2 ([] @ [lvl_mm l]) s2)"
      by (simp add: cum_series_def)
    then show ?thesis by blast
  next
    case later
    from Cons.IH[OF later] obtain ms1 ms2 where
      "mms = ms1 @ lvl_mm l # ms2"
      "l = overlap_level_of c (lvl_mm l) (cum_series covT1 (ms1 @ [lvl_mm l]) ?s1)
           (cum_series covT2 (ms1 @ [lvl_mm l]) ?s2)" by blast
    then have "m # mms = (m # ms1) @ lvl_mm l # ms2 \<and>
      l = overlap_level_of c (lvl_mm l) (cum_series covT1 ((m # ms1) @ [lvl_mm l]) s1)
           (cum_series covT2 ((m # ms1) @ [lvl_mm l]) s2)"
      by (simp add: cum_series_def)
    then show ?thesis by blast
  qed
qed

lemma loop_mms: "map lvl_mm (mm2overlap_loop c covT1 covT2 mms s1 s2) = mms"
  by (induction mms arbitrary: s1 s2) (simp_all add: Let_def overlap_level_of_def)

lemma map_of_keys: "k \<in> set (map fst covT) \<Longrightarrow> \<exists>d. map_of covT k = Some d"
  by (metis list.set_map map_of_eq_None_iff not_Some_eq)

lemma lev_index_union:
  "(\<Union>k \<in> S. lev_index covT k) =
   (\<Union>k \<in> {k \<in> set (map fst covT). k \<in> S}. set (map fst (the (map_of covT k))))"
proof -
  have "lev_index covT k = (if k \<in> set (map fst covT) then set (map fst (the (map_of covT k))) else {})" for k
    using map_of_keys[of k covT]
    by (auto simp: lev_index_def map_of_eq_None_iff image_iff split: option.splits dest!: map_of_SomeD)
  then show ?thesis by auto
qed

lemma lev_depth_sum:
  assumes "finite S"
  shows "(\<Sum>k \<in> S. lev_depth covT k p) =
   (\<Sum>k \<in> {k \<in> set (map fst covT). k \<in> S}. sget (the (map_of covT k)) p)"
proof -
  have eq: "lev_depth covT k p = (if k \<in> set (map fst covT) then sget (the (map_of covT k)) p else 0)" for k
    using map_of_keys[of k covT]
    by (auto simp: lev_depth_def map_of_eq_None_iff image_iff split: option.splits dest!: map_of_SomeD)
  have "(\<Sum>k \<in> S. lev_depth covT k p) = (\<Sum>k \<in> {k \<in> S. k \<in> set (map fst covT)}. sget (the (map_of covT k)) p)"
    unfolding eq using assms by (simp add: sum.inter_filter)
  moreover have "{k \<in> S. k \<in> set (map fst covT)} = {k \<in> set (map fst covT). k \<in> S}" by auto
  ultimately show ?thesis by simp
qed

lemma sorted_prefix_set:
  assumes "sorted (ms1 @ m # ms2)" "distinct (ms1 @ m # ms2)"
  shows "set (ms1 @ [m]) = {k \<in> set (ms1 @ m # ms2). k \<le> (m::nat)}"
  using assms by (auto simp: sorted_append) 

lemma cum_series_covered_at:
  assumes "sorted (ms1 @ m # ms2)" "distinct (ms1 @ m # ms2)"
    and "set (map fst covT) \<subseteq> set (ms1 @ m # ms2)"
  shows "covered c (cum_series covT (ms1 @ [m]) []) = covered_at c covT m"
proof -
  let ?S = "set (ms1 @ [m])"
  have S: "?S = {k \<in> set (ms1 @ m # ms2). k \<le> m}"
    by (rule sorted_prefix_set[OF assms(1,2)])
  have K: "{k \<in> set (map fst covT). k \<in> ?S} = {k \<in> set (map fst covT). k \<le> m}"
    unfolding S using assms(3) by auto
  have d: "distinct (ms1 @ [m])" using assms(2) by simp
  have idx: "fst ` set (cum_series covT (ms1 @ [m]) []) = listed_upto covT m"
    unfolding index_cum_series lev_index_union K listed_upto_def by simp
  have dep: "sget (cum_series covT (ms1 @ [m]) []) p = cum_depth covT m p" for p
  proof -
    have "(\<Sum>k \<in> ?S. lev_depth covT k p) =
      (\<Sum>k \<in> {k \<in> set (map fst covT). k \<in> ?S}. sget (the (map_of covT k)) p)"
      by (rule lev_depth_sum) simp
    then have "(\<Sum>k \<in> ?S. lev_depth covT k p) = cum_depth covT m p"
      unfolding K cum_depth_def .
    moreover have "sget [] p = 0" by (simp add: sget_def)
    ultimately show ?thesis unfolding sget_cum_series[OF d] by simp
  qed
  have "distinct (map fst (cum_series covT (ms1 @ [m]) []))"
    by (rule distinct_cum_series) simp
  then show ?thesis
    unfolding covered_at_def by (simp add: covered_distinct idx dep del: set_append)
qed

lemma mms_of_props:
  "sorted (mms_of covT1 covT2)" "distinct (mms_of covT1 covT2)"
  "set (mms_of covT1 covT2) = set (map fst covT1) \<union> set (map fst covT2)"
  by (simp_all add: mms_of_def)

lemma overlap_levels_char:
  assumes "l \<in> set (overlap_levels c covT1 covT2)"
  shows "lvl_T1 l = covered_at c covT1 (lvl_mm l)"
    and "lvl_T2 l = covered_at c covT2 (lvl_mm l)"
    and "coveredInEither l = lvl_T1 l \<union> lvl_T2 l"
    and "coveredInBoth l = lvl_T1 l \<inter> lvl_T2 l"
    and "lvl_cov l = (if card (coveredInEither l) > 0
           then real (card (coveredInBoth l)) / real (card (coveredInEither l)) else 0)"
    and "lvl_mm l \<in> set (map fst covT1) \<union> set (map fst covT2)"
proof -
  from assms obtain ms1 ms2 where
    mms: "mms_of covT1 covT2 = ms1 @ lvl_mm l # ms2" and
    l: "l = overlap_level_of c (lvl_mm l) (cum_series covT1 (ms1 @ [lvl_mm l]) [])
           (cum_series covT2 (ms1 @ [lvl_mm l]) [])"
    unfolding overlap_levels_def using loop_levels by blast
  have so: "sorted (ms1 @ lvl_mm l # ms2)" and di: "distinct (ms1 @ lvl_mm l # ms2)"
    and k1: "set (map fst covT1) \<subseteq> set (ms1 @ lvl_mm l # ms2)"
    and k2: "set (map fst covT2) \<subseteq> set (ms1 @ lvl_mm l # ms2)"
    using mms_of_props[of covT1 covT2] unfolding mms by auto
  have "lvl_T1 l = covered c (cum_series covT1 (ms1 @ [lvl_mm l]) [])"
    by (subst l) (simp add: overlap_level_of_def Let_def)
  then show "lvl_T1 l = covered_at c covT1 (lvl_mm l)"
    by (simp only: cum_series_covered_at[OF so di k1])
  have "lvl_T2 l = covered c (cum_series covT2 (ms1 @ [lvl_mm l]) [])"
    by (subst l) (simp add: overlap_level_of_def Let_def)
  then show "lvl_T2 l = covered_at c covT2 (lvl_mm l)"
    by (simp only: cum_series_covered_at[OF so di k2])
  show "coveredInEither l = lvl_T1 l \<union> lvl_T2 l"
    by (subst l, subst (2) l, subst (3) l) (simp add: overlap_level_of_def Let_def)
  show "coveredInBoth l = lvl_T1 l \<inter> lvl_T2 l"
    by (subst l, subst (2) l, subst (3) l) (simp add: overlap_level_of_def Let_def)
  show "lvl_cov l = (if card (coveredInEither l) > 0
           then real (card (coveredInBoth l)) / real (card (coveredInEither l)) else 0)"
    by (subst l, subst (2) l, subst (3) l, subst (4) l) (simp add: overlap_level_of_def Let_def)
  show "lvl_mm l \<in> set (map fst covT1) \<union> set (map fst covT2)"
    using mms_of_props(3)[of covT1 covT2] unfolding mms by auto
qed

lemma finite_listed_upto: "finite (listed_upto covT m)"
  by (simp add: listed_upto_def)

lemma finite_covered_at: "finite (covered_at c covT m)"
  by (simp add: covered_at_def finite_listed_upto)

lemma covered_at_mono:
  assumes "M \<le> N"
  shows "covered_at c covT M \<subseteq> covered_at c covT N"
proof
  fix p assume "p \<in> covered_at c covT M"
  then have p: "p \<in> listed_upto covT M" "c \<le> int (cum_depth covT M p)"
    by (simp_all add: covered_at_def)
  have sub: "{k \<in> set (map fst covT). k \<le> M} \<subseteq> {k \<in> set (map fst covT). k \<le> N}"
    using assms by auto
  have "listed_upto covT M \<subseteq> listed_upto covT N"
    unfolding listed_upto_def using sub by blast
  moreover have "cum_depth covT M p \<le> cum_depth covT N p"
    unfolding cum_depth_def by (rule sum_mono2[OF _ sub]) simp_all
  ultimately show "p \<in> covered_at c covT N"
    using p by (auto simp: covered_at_def)
qed

text \<open>
  Claim C5. Every level \<open>m\<close> that \<^verbatim>\<open>_calc_mm2overlap\<close> evaluates is a key of one of the two
  tables, and the fraction it stores for \<open>m\<close> in \<^verbatim>\<open>mm2coverage\<close> is
  \<open>|T1 \<inter> T2| / |T1 \<union> T2|\<close>, with \<open>Ti\<close> the positions of sample \<open>i\<close> whose cumulative depth at
  \<open>m\<close> is at least \<^verbatim>\<open>min_cov\<close>; it is 0 when the union is empty, and it lies in \<open>[0, 1]\<close>.
\<close>

theorem coverage_overlap_fraction:
  assumes "(m, c) \<in> set (snd (calc_mm2overlap covT1 covT2 min_cov))"
  shows "c = (if covered_at min_cov covT1 m \<union> covered_at min_cov covT2 m = {} then 0
              else real (card (covered_at min_cov covT1 m \<inter> covered_at min_cov covT2 m))
                   / real (card (covered_at min_cov covT1 m \<union> covered_at min_cov covT2 m)))
         \<and> 0 \<le> c \<and> c \<le> 1
         \<and> m \<in> set (map fst covT1) \<union> set (map fst covT2)"
proof -
  let ?T1 = "covered_at min_cov covT1 m" and ?T2 = "covered_at min_cov covT2 m"
  from assms obtain l where l: "l \<in> set (overlap_levels min_cov covT1 covT2)"
    and m: "m = lvl_mm l" and c: "c = lvl_cov l"
    by (auto simp: calc_mm2overlap_def Let_def)
  note ch = overlap_levels_char[OF l]
  have e: "coveredInEither l = ?T1 \<union> ?T2" and b: "coveredInBoth l = ?T1 \<inter> ?T2"
    using ch(1-4) m by simp_all
  have fin: "finite (?T1 \<union> ?T2)" by (simp add: finite_covered_at)
  have ceq: "c = (if card (?T1 \<union> ?T2) > 0
      then real (card (?T1 \<inter> ?T2)) / real (card (?T1 \<union> ?T2)) else 0)"
    using ch(5) c e b by simp
  have pos: "card (?T1 \<union> ?T2) > 0 \<longleftrightarrow> ?T1 \<union> ?T2 \<noteq> {}"
    using fin by (simp add: card_gt_0_iff)
  have le: "card (?T1 \<inter> ?T2) \<le> card (?T1 \<union> ?T2)"
    by (rule card_mono[OF fin]) auto
  have "0 \<le> c" unfolding ceq by simp
  moreover have "c \<le> 1" unfolding ceq using le by (simp add: divide_le_eq_1)
  moreover have "c = (if ?T1 \<union> ?T2 = {} then 0
      else real (card (?T1 \<inter> ?T2)) / real (card (?T1 \<union> ?T2)))"
    using ceq pos by auto
  moreover have "m \<in> set (map fst covT1) \<union> set (map fst covT2)"
    using ch(6) m by simp
  ultimately show ?thesis by blast
qed

theorem coverage_overlap_fraction_witness:
  "(0, 1 / 2) \<in> set (snd (calc_mm2overlap w_covT1 w_covT2 5)) \<and>
   (1 / 2 = (if covered_at 5 w_covT1 0 \<union> covered_at 5 w_covT2 0 = {} then 0
             else real (card (covered_at 5 w_covT1 0 \<inter> covered_at 5 w_covT2 0))
                  / real (card (covered_at 5 w_covT1 0 \<union> covered_at 5 w_covT2 0)))
    \<and> (0::real) \<le> 1 / 2 \<and> (1 / 2 :: real) \<le> 1
    \<and> (0::nat) \<in> set (map fst w_covT1) \<union> set (map fst w_covT2))"
proof -
  have h: "(0, 1 / 2) \<in> set (snd (calc_mm2overlap w_covT1 w_covT2 5))"
    by code_simp
  show ?thesis
    using h coverage_overlap_fraction[OF h] by blast
qed

text \<open>
  Claim C7. For two levels \<open>M \<le> N\<close> that the loop of \<^verbatim>\<open>_calc_mm2overlap\<close> evaluates with the
  same \<^verbatim>\<open>min_cov\<close>, the sets \<^verbatim>\<open>T1\<close> and \<^verbatim>\<open>T2\<close> of covered positions and the set
  \<^verbatim>\<open>coveredInBoth\<close> at \<open>N\<close> contain those at \<open>M\<close>; the latter are what \<^verbatim>\<open>mm2overlap\<close> holds.
\<close>

theorem covered_sets_monotone:
  assumes "l \<in> set (overlap_levels min_cov covT1 covT2)"
    and "l' \<in> set (overlap_levels min_cov covT1 covT2)"
    and "lvl_mm l \<le> lvl_mm l'"
  shows "lvl_T1 l \<subseteq> lvl_T1 l' \<and> lvl_T2 l \<subseteq> lvl_T2 l' \<and> coveredInBoth l \<subseteq> coveredInBoth l'
         \<and> (lvl_mm l, coveredInBoth l) \<in> set (fst (calc_mm2overlap covT1 covT2 min_cov))
         \<and> (lvl_mm l', coveredInBoth l') \<in> set (fst (calc_mm2overlap covT1 covT2 min_cov))"
proof -
  note a = overlap_levels_char[OF assms(1)] and b = overlap_levels_char[OF assms(2)]
  have 1: "lvl_T1 l \<subseteq> lvl_T1 l'"
    unfolding a(1) b(1) by (rule covered_at_mono[OF assms(3)])
  have 2: "lvl_T2 l \<subseteq> lvl_T2 l'"
    unfolding a(2) b(2) by (rule covered_at_mono[OF assms(3)])
  have 3: "coveredInBoth l \<subseteq> coveredInBoth l'"
    unfolding a(4) b(4) using 1 2 by blast
  have 4: "(lvl_mm l, coveredInBoth l) \<in> set (fst (calc_mm2overlap covT1 covT2 min_cov))"
    using assms(1) by (auto simp: calc_mm2overlap_def Let_def)
  have 5: "(lvl_mm l', coveredInBoth l') \<in> set (fst (calc_mm2overlap covT1 covT2 min_cov))"
    using assms(2) by (auto simp: calc_mm2overlap_def Let_def)
  from 1 2 3 4 5 show ?thesis by blast
qed

theorem covered_sets_monotone_witness:
  "w_level0 \<in> set (overlap_levels 5 w_covT1 w_covT2) \<and>
   w_level1 \<in> set (overlap_levels 5 w_covT1 w_covT2) \<and>
   lvl_mm w_level0 \<le> lvl_mm w_level1 \<and>
   lvl_T1 w_level0 \<subseteq> lvl_T1 w_level1 \<and> lvl_T2 w_level0 \<subseteq> lvl_T2 w_level1 \<and>
   coveredInBoth w_level0 \<subseteq> coveredInBoth w_level1 \<and>
   (lvl_mm w_level0, coveredInBoth w_level0) \<in> set (fst (calc_mm2overlap w_covT1 w_covT2 5)) \<and>
   (lvl_mm w_level1, coveredInBoth w_level1) \<in> set (fst (calc_mm2overlap w_covT1 w_covT2 5))"
proof -
  have h0: "w_level0 \<in> set (overlap_levels 5 w_covT1 w_covT2)" by code_simp
  have h1: "w_level1 \<in> set (overlap_levels 5 w_covT1 w_covT2)" by code_simp
  have h2: "lvl_mm w_level0 \<le> lvl_mm w_level1" by (simp add: w_level0_def w_level1_def)
  show ?thesis
    using h0 h1 h2 covered_sets_monotone[OF h0 h1 h2] by blast
qed

section \<open>The present test and the population SNP classifier\<close>

text \<open>The present test at total depth 0, for any model: the lookup, then the comparison with
  the threshold, and the division only when the count reaches the threshold.\<close>

lemma is_present_depth_0:
  "is_present counts 0 model min_freq =
     (case model 0 of
        None \<Rightarrow> Inl KeyError
      | Some thr \<Rightarrow> if counts < thr then Inr False else Inl ZeroDivisionError)"
  by (auto simp: is_present_def split: option.splits)

text \<open>
  Claim C9. The detection model has a minimum count of at least one read for every depth
  (\<^verbatim>\<open>generate_snp_model\<close> answers a depth outside its table with the largest minimum count of
  the table), and a count is at most the depth. At total depth 0 the present test then
  answers "not present" and returns: the lookup succeeds, the count 0 is below the minimum
  count, and the conjunction stops before the division by the depth.
\<close>

theorem is_present_zero_depth:
  assumes "tot = 0" and "counts \<le> tot"
    and "model tot = Some thr" and "0 < thr"
  shows "is_present counts tot model min_freq = Inr False"
  using assms by (simp add: is_present_depth_0)

theorem is_present_zero_depth_witness:
  "(0::nat) = 0 \<and> (0::nat) \<le> 0 \<and> w_model 0 = Some 3 \<and> (0::nat) < 3
   \<and> is_present 0 0 w_model (1 / 20) = Inr False"
proof -
  have a: "(0::nat) = 0" and b: "(0::nat) \<le> 0" and d: "(0::nat) < 3" by simp_all
  have c: "w_model 0 = Some 3" by (simp add: w_model_def)
  show ?thesis
    using a b c d
      is_present_zero_depth[where tot = 0 and counts = 0 and model = w_model and thr = 3
        and min_freq = "1 / 20"]
    by simp
qed




section \<open>The rows of the comparison table\<close>

lemma map_result_Inr_length: "map_result f xs = Inr ys \<Longrightarrow> length ys = length xs"
  by (induction xs arbitrary: ys) (auto split: sum.splits)

lemma map_result_Inr_set:
  "map_result f xs = Inr ys \<Longrightarrow> y \<in> set ys \<Longrightarrow> \<exists>x \<in> set xs. f x = Inr y"
  by (induction xs arbitrary: ys) (auto split: sum.splits)

lemma drop_duplicates_last_set: "set (drop_duplicates_last key xs) \<subseteq> set xs"
  by (induction xs) auto

lemma level_rows_positions: "position ` set (level_rows tbl covs) \<subseteq> covs"
proof -
  have "set (level_rows tbl covs) \<subseteq> set (filter (\<lambda>r. position r \<in> covs) tbl)"
    using drop_duplicates_last_set[of position "filter (\<lambda>r. position r \<in> covs) tbl"]
    by (auto simp: level_rows_def)
  then show ?thesis by auto
qed

lemma length_merge_outer:
  assumes "finite covs"
  shows "length (merge_outer (level_rows t1 covs) (level_rows t2 covs)) \<le> card covs"
proof -
  let ?ks = "remdups (map position (level_rows t1 covs) @ map position (level_rows t2 covs))"
  have "set ?ks \<subseteq> covs"
    using level_rows_positions[of t1 covs] level_rows_positions[of t2 covs] by auto
  then have "card (set ?ks) \<le> card covs" by (rule card_mono[OF assms])
  moreover have "card (set ?ks) = length ?ks" by (rule distinct_card) simp
  ultimately show ?thesis by (simp add: merge_outer_def)
qed

lemma level_Mdb_length:
  assumes "level_Mdb t1 t2 model mf lv = Inr db" "finite (snd lv)"
  shows "length db \<le> card (snd lv)"
proof (cases "level_rows t1 (snd lv) = [] \<and> level_rows t2 (snd lv) = []")
  case True
  with assms(1) show ?thesis by (simp add: level_Mdb_def Let_def)
next
  case False
  with assms(1) have "length db = length (merge_outer (level_rows t1 (snd lv)) (level_rows t2 (snd lv)))"
    by (auto simp: level_Mdb_def Let_def dest: map_result_Inr_length)
  then show ?thesis using length_merge_outer[OF assms(2)] by simp
qed

lemma level_Mdb_mm:
  assumes "level_Mdb t1 t2 model mf lv = Inr db" "r \<in> set db"
  shows "m_mm r = fst lv"
proof (cases "level_rows t1 (snd lv) = [] \<and> level_rows t2 (snd lv) = []")
  case True
  with assms show ?thesis by (simp add: level_Mdb_def Let_def)
next
  case False
  with assms(1) have "map_result
        (\<lambda>row. case call_pop_snps row model mf of
                  Inl e \<Rightarrow> Inl e
                | Inr ps \<Rightarrow> Inr \<lparr>m_row = row, consensus_SNP = call_con_snps row,
                                 population_SNP = ps, m_mm = fst lv\<rparr>)
        (merge_outer (level_rows t1 (snd lv)) (level_rows t2 (snd lv))) = Inr db"
    by (simp add: level_Mdb_def Let_def)
  from map_result_Inr_set[OF this assms(2)] obtain x where
    "(case call_pop_snps x model mf of
                  Inl e \<Rightarrow> Inl e
                | Inr ps \<Rightarrow> Inr \<lparr>m_row = x, consensus_SNP = call_con_snps x,
                                 population_SNP = ps, m_mm = fst lv\<rparr>) = Inr r" by blast
  then show ?thesis
    by (cases "call_pop_snps x model mf") auto
qed

lemma levels_filter_other:
  "map_result (level_Mdb t1 t2 model mf) lvs = Inr dbs \<Longrightarrow> k \<notin> fst ` set lvs
   \<Longrightarrow> filter (\<lambda>r. m_mm r = k) (concat dbs) = []"
proof (induction lvs arbitrary: dbs)
  case Nil
  then show ?case by simp
next
  case (Cons lv lvs)
  from Cons.prems(1) obtain db dbs' where
    db: "level_Mdb t1 t2 model mf lv = Inr db" and
    rest: "map_result (level_Mdb t1 t2 model mf) lvs = Inr dbs'" and
    dbs: "dbs = db # dbs'"
    by (auto split: sum.splits)
  have "filter (\<lambda>r. m_mm r = k) db = []"
    using level_Mdb_mm[OF db] Cons.prems(2) by (auto simp: filter_empty_conv)
  moreover have "filter (\<lambda>r. m_mm r = k) (concat dbs') = []"
    using Cons.IH[OF rest] Cons.prems(2) by simp
  ultimately show ?case by (simp add: dbs)
qed

lemma levels_filter_length:
  "map_result (level_Mdb t1 t2 model mf) lvs = Inr dbs \<Longrightarrow> distinct (map fst lvs)
   \<Longrightarrow> lv \<in> set lvs \<Longrightarrow> finite (snd lv)
   \<Longrightarrow> length (filter (\<lambda>r. m_mm r = fst lv) (concat dbs)) \<le> card (snd lv)"
proof (induction lvs arbitrary: dbs)
  case Nil
  then show ?case by simp
next
  case (Cons lv' lvs)
  from Cons.prems(1) obtain db dbs' where
    db: "level_Mdb t1 t2 model mf lv' = Inr db" and
    rest: "map_result (level_Mdb t1 t2 model mf) lvs = Inr dbs'" and
    dbs: "dbs = db # dbs'"
    by (auto split: sum.splits)
  show ?case
  proof (cases "lv = lv'")
    case True
    have "fst lv \<notin> fst ` set lvs" using Cons.prems(2) True by simp
    from levels_filter_other[OF rest this]
    have "filter (\<lambda>r. m_mm r = fst lv) (concat dbs') = []" .
    moreover have "length (filter (\<lambda>r. m_mm r = fst lv) db) \<le> length db" by simp
    moreover have "length db \<le> card (snd lv)"
      using level_Mdb_length[OF db] Cons.prems(4) True by simp
    ultimately have "length (filter (\<lambda>r. m_mm r = fst lv) (concat dbs')) = 0"
      "length (filter (\<lambda>r. m_mm r = fst lv) db) \<le> card (snd lv)"
      by (simp, linarith)
    then show ?thesis by (simp add: dbs)
  next
    case False
    then have in_rest: "lv \<in> set lvs" using Cons.prems(3) by simp
    then have "fst lv \<noteq> fst lv'" using Cons.prems(2) by (auto simp: image_iff)
    then have "filter (\<lambda>r. m_mm r = fst lv) db = []"
      using level_Mdb_mm[OF db] by (auto simp: filter_empty_conv)
    moreover have "length (filter (\<lambda>r. m_mm r = fst lv) (concat dbs')) \<le> card (snd lv)"
      using Cons.IH[OF rest _ in_rest Cons.prems(4)] Cons.prems(2) by simp
    ultimately show ?thesis by (simp add: dbs)
  qed
qed

lemma calc_SNP_count_level_bound:
  assumes "calc_SNP_count_alternate t1 t2 mm2overlap mf model = Inr Mdb"
    and "distinct (map fst mm2overlap)" "lv \<in> set mm2overlap" "finite (snd lv)"
  shows "length (filter (\<lambda>r. m_mm r = fst lv) Mdb) \<le> card (snd lv)"
proof -
  from assms(1) obtain dbs where
    "map_result (level_Mdb t1 t2 model mf) mm2overlap = Inr dbs" "Mdb = concat dbs"
    by (auto simp: calc_SNP_count_alternate_def split: sum.splits if_splits)
  then show ?thesis using levels_filter_length[OF _ assms(2,3,4)] by simp
qed

lemma overlap_table_row_ok:
  assumes "overlap_table_row scaff mm2coverage Mdb n1 n2 mLen lv = Inr r"
    and "length (filter (\<lambda>r. m_mm r = fst lv) Mdb) \<le> card (snd lv)"
  shows "row_ok r"
proof -
  let ?mdb = "filter (\<lambda>r. m_mm r = fst lv) Mdb"
  have a: "length (filter consensus_SNP ?mdb) \<le> card (snd lv)"
    using assms(2) le_trans[OF length_filter_le] by blast
  have b: "length (filter population_SNP ?mdb) \<le> card (snd lv)"
    using assms(2) le_trans[OF length_filter_le] by blast
  from assms(1) a b show ?thesis
    by (auto simp: overlap_table_row_def Let_def row_ok_def split: option.splits if_splits)
qed

lemma calc_mm2overlap_keys:
  "map fst (fst (calc_mm2overlap covT1 covT2 c)) = mms_of covT1 covT2"
  using loop_mms[of c covT1 covT2 "mms_of covT1 covT2" "[]" "[]"]
  by (simp add: calc_mm2overlap_def Let_def overlap_levels_def comp_def)

lemma calc_mm2overlap_finite:
  assumes "lv \<in> set (fst (calc_mm2overlap covT1 covT2 c))"
  shows "finite (snd lv)"
proof -
  from assms obtain l where l: "l \<in> set (overlap_levels c covT1 covT2)"
    and lv: "lv = (lvl_mm l, coveredInBoth l)"
    by (auto simp: calc_mm2overlap_def Let_def)
  have "coveredInBoth l = covered_at c covT1 (lvl_mm l) \<inter> covered_at c covT2 (lvl_mm l)"
    using overlap_levels_char(1,2,4)[OF l] by simp
  then show ?thesis by (simp add: lv finite_covered_at)
qed

lemma update_overlap_table_ok:
  assumes "update_overlap_table table scaff mm2overlap mm2coverage Mdb n1 n2 mLen = Inr table'"
    and "\<forall>r \<in> set table. row_ok r"
    and "\<forall>lv \<in> set mm2overlap. length (filter (\<lambda>r. m_mm r = fst lv) Mdb) \<le> card (snd lv)"
  shows "\<forall>r \<in> set table'. row_ok r"
proof -
  from assms(1) obtain rows where
    rows: "map_result (overlap_table_row scaff mm2coverage Mdb n1 n2 mLen) mm2overlap = Inr rows"
    and t: "table' = table @ rows"
    by (auto simp: update_overlap_table_def split: sum.splits)
  have "row_ok r" if "r \<in> set rows" for r
  proof -
    from map_result_Inr_set[OF rows that] obtain lv where
      "lv \<in> set mm2overlap" "overlap_table_row scaff mm2coverage Mdb n1 n2 mLen lv = Inr r"
      by blast
    then show ?thesis using overlap_table_row_ok assms(3) by blast
  qed
  then show ?thesis using assms(2) t by auto
qed

lemma compare_pair_ok:
  assumes "compare_pair model scaff mLen min_cov mf sl sc pr st = Inr st'"
    and "\<forall>r \<in> set (fst st). row_ok r"
  shows "\<forall>r \<in> set (fst st'). row_ok r"
proof -
  obtain covT1 t1 n1 covT2 t2 n2 where pr: "pr = ((covT1, t1, n1), (covT2, t2, n2))"
    by (metis prod_cases3 surj_pair)
  obtain table snpLocs pc where st: "st = (table, snpLocs, pc)"
    by (metis prod_cases3)
  let ?ov = "fst (calc_mm2overlap covT1 covT2 min_cov)"
  let ?cv = "snd (calc_mm2overlap covT1 covT2 min_cov)"
  from assms(1) obtain Mdb table' where
    M: "calc_SNP_count_alternate t1 t2 ?ov mf model = Inr Mdb" and
    U: "update_overlap_table table scaff ?ov ?cv Mdb n1 n2 mLen = Inr table'" and
    f: "fst st' = table'"
    unfolding compare_pair_def pr st
    by (auto simp: case_prod_beta split: sum.splits)
  have d: "distinct (map fst ?ov)"
    by (simp add: calc_mm2overlap_keys mms_of_props)
  have "\<forall>lv \<in> set ?ov. length (filter (\<lambda>r. m_mm r = fst lv) Mdb) \<le> card (snd lv)"
    using calc_SNP_count_level_bound[OF M d] calc_mm2overlap_finite by blast
  from update_overlap_table_ok[OF U _ this] assms(2) show ?thesis
    by (simp add: f st)
qed

lemma fold_result_invariant:
  assumes "fold_result f xs s = Inr s'" "P s"
    and "\<And>x t t'. P t \<Longrightarrow> f x t = Inr t' \<Longrightarrow> P t'"
  shows "P s'"
  using assms(1,2)
proof (induction xs arbitrary: s)
  case Nil
  then show ?case by simp
next
  case (Cons x xs)
  from Cons.prems(1) obtain t where t: "f x s = Inr t" and r: "fold_result f xs t = Inr s'"
    by (auto split: sum.splits)
  from assms(3)[OF Cons.prems(2) t] have "P t" .
  from Cons.IH[OF r this] show ?case .
qed

lemma compare_scaffold_rows_ok:
  assumes "compare_scaffold gen_model g scaff names sProfiles mLen kw = Inr (Profile Cdb Mdb cov nm)"
  shows "\<forall>r \<in> set Cdb. row_ok r"
proof -
  let ?f = "compare_pair (gen_model (kwargs_get (kw_fdr kw) (1 / 10 ^ 6))) scaff mLen
              (kwargs_get (kw_min_cov kw) 5) (kwargs_get (kw_min_freq kw) 5)
              (kwargs_get (kw_store_mismatch_locations kw) False)
              (kwargs_get (kw_store_coverage_overlap kw) False)"
  from assms obtain cur where cur: "load_samples g scaff (zip sProfiles names) = Inr cur"
    by (auto simp: compare_scaffold_def Let_def split: sum.splits)
  show ?thesis
  proof (cases "length cur < 2")
    case True
    with assms cur show ?thesis by (simp add: compare_scaffold_def Let_def)
  next
    case False
    with assms cur obtain st' where
      fr: "fold_result ?f (sample_pairs (kwargs_get (kw_include_self_comparisons kw) False) cur)
             ([], [], []) = Inr st'" and c: "Cdb = fst st'"
      by (auto simp: compare_scaffold_def Let_def split: sum.splits)
    have "\<forall>r \<in> set (fst st'). row_ok r"
      by (rule fold_result_invariant[OF fr, where P = "\<lambda>st. \<forall>r \<in> set (fst st). row_ok r"])
         (simp, rule compare_pair_ok)
    then show ?thesis by (simp add: c)
  qed
qed

text \<open>
  Claim C4. Every row of the table that \<^verbatim>\<open>compare_scaffold\<close> returns (any scaffold, any pair
  of samples, any mismatch level) has \<open>conANI = (compared_bases_count - consensus_SNPs) /
  compared_bases_count\<close> and \<open>popANI = (compared_bases_count - population_SNPs) /
  compared_bases_count\<close>, both within \<open>[0, 1]\<close>, when \<open>compared_bases_count > 0\<close>, and has
  both absent (NaN) when \<open>compared_bases_count = 0\<close>.
\<close>

theorem comparison_row_ANI:
  assumes "compare_scaffold gen_model g scaff names sProfiles mLen kw = Inr (Profile Cdb Mdb cov nm)"
    and "r \<in> set Cdb"
  shows "if compared_bases_count r = 0 then conANI r = None \<and> popANI r = None
         else (\<exists>a p. conANI r = Some a \<and> popANI r = Some p
                \<and> a = real_of_int (int (compared_bases_count r) - int (consensus_SNPs r))
                      / real (compared_bases_count r)
                \<and> p = real_of_int (int (compared_bases_count r) - int (population_SNPs r))
                      / real (compared_bases_count r)
                \<and> 0 \<le> a \<and> a \<le> 1 \<and> 0 \<le> p \<and> p \<le> 1)"
proof -
  have ok: "row_ok r" using compare_scaffold_rows_ok[OF assms(1)] assms(2) by blast
  show ?thesis
  proof (cases "compared_bases_count r = 0")
    case True
    with ok show ?thesis by (simp add: row_ok_def)
  next
    case False
    let ?b = "compared_bases_count r"
    from ok False have
      c: "conANI r = Some (real_of_int (int ?b - int (consensus_SNPs r)) / real ?b)" and
      p: "popANI r = Some (real_of_int (int ?b - int (population_SNPs r)) / real ?b)" and
      cs: "consensus_SNPs r \<le> ?b" and ps: "population_SNPs r \<le> ?b"
      by (simp_all add: row_ok_def)
    have bpos: "0 < real ?b" using False by simp
    have rng: "0 \<le> real_of_int (int ?b - int k) / real ?b \<and>
               real_of_int (int ?b - int k) / real ?b \<le> 1" if "k \<le> ?b" for k
      using that bpos by (simp add: divide_le_eq_1)
    from c p rng[OF cs] rng[OF ps] False show ?thesis by simp
  qed
qed

theorem comparison_row_ANI_witness:
  "compare_scaffold w_gen_model None ''chr1'' [''A'', ''B''] [w_profA, w_profB] 100 w_kwargs
     = Inr (Profile [w_row0, w_row1] [] [] ''chr1'')
   \<and> w_row0 \<in> set [w_row0, w_row1]
   \<and> (if compared_bases_count w_row0 = 0 then conANI w_row0 = None \<and> popANI w_row0 = None
       else (\<exists>a p. conANI w_row0 = Some a \<and> popANI w_row0 = Some p
                \<and> a = real_of_int (int (compared_bases_count w_row0) - int (consensus_SNPs w_row0))
                      / real (compared_bases_count w_row0)
                \<and> p = real_of_int (int (compared_bases_count w_row0) - int (population_SNPs w_row0))
                      / real (compared_bases_count w_row0)
                \<and> 0 \<le> a \<and> a \<le> 1 \<and> 0 \<le> p \<and> p \<le> 1))"
proof -
  have h: "compare_scaffold w_gen_model None ''chr1'' [''A'', ''B''] [w_profA, w_profB] 100 w_kwargs
     = Inr (Profile [w_row0, w_row1] [] [] ''chr1'')"
    by code_simp
  have m: "w_row0 \<in> set [w_row0, w_row1]" by simp
  show ?thesis
    using h m comparison_row_ANI[OF h m] by blast
qed

section \<open>Genome-wide aggregation\<close>

lemma drop_duplicates_last_distinct: "distinct (map key (drop_duplicates_last key xs))"
proof (induction xs)
  case Nil
  then show ?case by simp
next
  case (Cons x xs)
  have "key x \<notin> key ` set (drop_duplicates_last key xs)" if "key x \<notin> key ` set xs"
    using that drop_duplicates_last_set[of key xs] by blast
  with Cons show ?case by simp
qed

lemma drop_duplicates_last_max:
  assumes "sorted (map f xs)" "r \<in> set xs"
  shows "\<exists>k \<in> set (drop_duplicates_last key xs). key k = key r \<and> (f r :: nat) \<le> f k"
  using assms
proof (induction xs arbitrary: r)
  case Nil
  then show ?case by simp
next
  case (Cons x xs)
  have so: "sorted (map f xs)" and le: "\<And>y. y \<in> set xs \<Longrightarrow> f x \<le> f y"
    using Cons.prems(1) by auto
  show ?case
  proof (cases "r \<in> set xs")
    case True
    from Cons.IH[OF so True] show ?thesis by auto
  next
    case False
    then have rx: "r = x" using Cons.prems(2) by simp
    show ?thesis
    proof (cases "key x \<in> key ` set xs")
      case True
      then obtain y where y: "y \<in> set xs" "key y = key x" by auto
      from Cons.IH[OF so y(1)] obtain k where
        "k \<in> set (drop_duplicates_last key xs)" "key k = key y" "f y \<le> f k" by blast
      with y le[OF y(1)] True rx show ?thesis by auto
    next
      case False
      with rx show ?thesis by simp
    qed
  qed
qed

lemma kept_rows_props:
  "set (kept_rows g_mm Cdb) \<subseteq> {r \<in> set Cdb. c_mm r \<le> g_mm}"
  "distinct (map pair_of_row (kept_rows g_mm Cdb))"
  "r \<in> set Cdb \<Longrightarrow> c_mm r \<le> g_mm \<Longrightarrow>
     \<exists>k \<in> set (kept_rows g_mm Cdb). pair_of_row k = pair_of_row r \<and> c_mm r \<le> c_mm k"
proof -
  let ?xs = "sort_key c_mm (filter (\<lambda>r. c_mm r \<le> g_mm) Cdb)"
  show "set (kept_rows g_mm Cdb) \<subseteq> {r \<in> set Cdb. c_mm r \<le> g_mm}"
    using drop_duplicates_last_set[of pair_of_row ?xs] by (auto simp: kept_rows_def)
  show "distinct (map pair_of_row (kept_rows g_mm Cdb))"
    by (simp add: kept_rows_def drop_duplicates_last_distinct)
  assume "r \<in> set Cdb" "c_mm r \<le> g_mm"
  then have "r \<in> set ?xs" by simp
  moreover have "sorted (map c_mm ?xs)" by simp
  ultimately show "\<exists>k \<in> set (kept_rows g_mm Cdb). pair_of_row k = pair_of_row r \<and> c_mm r \<le> c_mm k"
    unfolding kept_rows_def by (rule drop_duplicates_last_max[rotated])
qed

text \<open>
  Claim C6. For a genome length that is not zero, \<^verbatim>\<open>calc_cov_ani\<close> returns the pair of
  genome popANI and genome coverage computed from the kept rows: the kept rows are rows of
  the table with level at most the ceiling \<^verbatim>\<open>g_mm\<close>, one per scaffold and sample pair, and
  for every row within the ceiling the kept row of its scaffold and pair has a level at least
  as high; genome popANI is the sum of \<open>popANI * compared_bases_count\<close> over the kept rows,
  a row without popANI adding 0, divided by the total compared bases, and is absent when
  that total is 0; genome coverage is the total divided by the genome length.
\<close>

theorem calc_cov_ani_result:
  assumes "BIN_LENGTH > 0"
  shows "\<exists>kept tcb.
      calc_cov_ani Cdb BIN_LENGTH kw
        = Inr (if tcb = 0 then None
               else Some ((\<Sum>r\<leftarrow>kept. case popANI r of None \<Rightarrow> 0
                                       | Some a \<Rightarrow> a * real (compared_bases_count r)) / real tcb),
               real tcb / real BIN_LENGTH)
      \<and> tcb = (\<Sum>r\<leftarrow>kept. compared_bases_count r)
      \<and> set kept \<subseteq> {r \<in> set Cdb. c_mm r \<le> kwargs_get (kw_g_mm kw) 100}
      \<and> distinct (map (\<lambda>r. (c_scaffold r, name1 r, name2 r)) kept)
      \<and> (\<forall>r \<in> set Cdb. c_mm r \<le> kwargs_get (kw_g_mm kw) 100 \<longrightarrow>
            (\<exists>k \<in> set kept. c_scaffold k = c_scaffold r \<and> name1 k = name1 r \<and> name2 k = name2 r
                \<and> c_mm r \<le> c_mm k))"
proof -
  let ?g = "kwargs_get (kw_g_mm kw) 100"
  let ?kept = "kept_rows ?g Cdb"
  let ?tcb = "\<Sum>r\<leftarrow>?kept. compared_bases_count r"
  have 1: "calc_cov_ani Cdb BIN_LENGTH kw
        = Inr (if ?tcb = 0 then None
               else Some ((\<Sum>r\<leftarrow>?kept. case popANI r of None \<Rightarrow> 0
                                       | Some a \<Rightarrow> a * real (compared_bases_count r)) / real ?tcb),
               real ?tcb / real BIN_LENGTH)"
    using assms by (simp add: calc_cov_ani_def Let_def weighted_popANI_def)
  have 2: "set ?kept \<subseteq> {r \<in> set Cdb. c_mm r \<le> ?g}" by (rule kept_rows_props(1))
  have 3: "distinct (map (\<lambda>r. (c_scaffold r, name1 r, name2 r)) ?kept)"
    using kept_rows_props(2)[of ?g Cdb] by (simp add: pair_of_row_def[abs_def])
  have 4: "\<forall>r \<in> set Cdb. c_mm r \<le> ?g \<longrightarrow>
            (\<exists>k \<in> set ?kept. c_scaffold k = c_scaffold r \<and> name1 k = name1 r \<and> name2 k = name2 r
                \<and> c_mm r \<le> c_mm k)"
  proof (intro ballI impI)
    fix r assume "r \<in> set Cdb" "c_mm r \<le> ?g"
    from kept_rows_props(3)[OF this] obtain k where
      k: "k \<in> set ?kept" "pair_of_row k = pair_of_row r" "c_mm r \<le> c_mm k" by blast
    from k(2) have "c_scaffold k = c_scaffold r \<and> name1 k = name1 r \<and> name2 k = name2 r"
      by (simp add: pair_of_row_def)
    with k(1,3) show "\<exists>k \<in> set ?kept. c_scaffold k = c_scaffold r \<and> name1 k = name1 r
        \<and> name2 k = name2 r \<and> c_mm r \<le> c_mm k" by blast
  qed
  from 1 2 3 4 show ?thesis by blast
qed

theorem calc_cov_ani_result_witness:
  "(0::nat) < 1000
   \<and> calc_cov_ani [w_ani5, w_ani2] 1000 w_kwargs = Inr (Some (19 / 20), 3 / 5)
   \<and> (\<exists>kept tcb.
      calc_cov_ani [w_ani5, w_ani2] 1000 w_kwargs
        = Inr (if tcb = 0 then None
               else Some ((\<Sum>r\<leftarrow>kept. case popANI r of None \<Rightarrow> 0
                                       | Some a \<Rightarrow> a * real (compared_bases_count r)) / real tcb),
               real tcb / real 1000)
      \<and> tcb = (\<Sum>r\<leftarrow>kept. compared_bases_count r)
      \<and> set kept \<subseteq> {r \<in> set [w_ani5, w_ani2]. c_mm r \<le> kwargs_get (kw_g_mm w_kwargs) 100}
      \<and> distinct (map (\<lambda>r. (c_scaffold r, name1 r, name2 r)) kept)
      \<and> (\<forall>r \<in> set [w_ani5, w_ani2]. c_mm r \<le> kwargs_get (kw_g_mm w_kwargs) 100 \<longrightarrow>
            (\<exists>k \<in> set kept. c_scaffold k = c_scaffold r \<and> name1 k = name1 r \<and> name2 k = name2 r
                \<and> c_mm r \<le> c_mm k)))"
proof -
  have h: "(0::nat) < 1000" by simp
  have e: "calc_cov_ani [w_ani5, w_ani2] 1000 w_kwargs = Inr (Some (19 / 20), 3 / 5)"
    by code_simp
  show ?thesis
    using h e calc_cov_ani_result[OF h, of "[w_ani5, w_ani2]" w_kwargs] by blast
qed

section \<open>The entry point, the scheduler and the defaults\<close>

text \<open>
  Claim C10, as the code has it. \<^verbatim>\<open>parse_validate\<close> runs before the greedy test. With the
  greedy-clustering option on and arguments that pass the validation, \<^verbatim>\<open>main\<close> prints the
  "not available" message and returns, with nothing done but the output profile and the
  logger that \<^verbatim>\<open>parse_validate\<close> set up. Whatever the validation gives, \<^verbatim>\<open>main\<close> in greedy
  mode never runs \<^verbatim>\<open>greedy_main\<close>, which stands behind the \<^verbatim>\<open>return\<close>, never compares
  scaffolds, and never stores a table or writes a file.
\<close>

theorem main_greedy:
  assumes "kwargs_get (kw_greedy_clustering vargs) False"
  shows "main Validated comparison vargs store_mm store_cov =
           ([Created_output_profile, Set_up_logger, Printed_not_available], Some (Inr ()))
         \<and> Ran_greedy_main \<notin> set (fst (main v comparison vargs store_mm store_cov))
         \<and> Ran_compare_scaffolds \<notin> set (fst (main v comparison vargs store_mm store_cov))
         \<and> (\<forall>n. Stored n \<notin> set (fst (main v comparison vargs store_mm store_cov)))
         \<and> (\<forall>n. Wrote_csv n \<notin> set (fst (main v comparison vargs store_mm store_cov)))"
  using assms by (cases v) (simp_all add: main_def main_body_def parse_validate_def)

theorem main_greedy_witness:
  "kwargs_get (kw_greedy_clustering (w_kwargs\<lparr>kw_greedy_clustering := Some True\<rparr>)) False
   \<and> main Validated None (w_kwargs\<lparr>kw_greedy_clustering := Some True\<rparr>) True True =
       ([Created_output_profile, Set_up_logger, Printed_not_available], Some (Inr ()))
   \<and> Ran_greedy_main \<notin> set (fst (main Failed_after_setup None
         (w_kwargs\<lparr>kw_greedy_clustering := Some True\<rparr>) True True))"
proof -
  have h: "kwargs_get (kw_greedy_clustering (w_kwargs\<lparr>kw_greedy_clustering := Some True\<rparr>)) False"
    by (simp add: kwargs_get_def)
  show ?thesis
    using h main_greedy[OF h, of None True True Failed_after_setup] by simp
qed

text \<open>
  Claim C10 as stated fails for arguments that do not pass the validation: with the
  greedy-clustering option on and fewer than two inputs, \<^verbatim>\<open>main\<close> ends with the
  \<open>AssertionError\<close> of \<^verbatim>\<open>parse_validate\<close>; it prints nothing and does not return.
\<close>

theorem main_greedy_counterexample:
  "kwargs_get (kw_greedy_clustering (w_kwargs\<lparr>kw_greedy_clustering := Some True\<rparr>)) False
   \<and> main Too_few_inputs None (w_kwargs\<lparr>kw_greedy_clustering := Some True\<rparr>) True True =
       ([], Some (Inl AssertionError))"
  by (simp add: kwargs_get_def main_def main_body_def parse_validate_def)

text \<open>A failure marker among the profiles of the first pass ends \<^verbatim>\<open>compare_scaffolds\<close> with
  \<open>KeyError\<close>, whatever the other scaffolds returned.\<close>

lemma profile_name_FailedFrame:
  "FailedFrame \<in> set ps \<Longrightarrow> map_result profile_name ps = Inl KeyError"
proof (induction ps)
  case Nil
  then show ?case by simp
next
  case (Cons s ps)
  show ?case
  proof (cases s)
    case (Profile c m v n)
    with Cons show ?thesis by (simp add: profile_name_def)
  next
    case FailedFrame
    then show ?thesis by (simp add: profile_name_def)
  qed
qed

lemma compare_scaffolds_marker_raises:
  assumes "iterate_commands names Sprofiles s2l scaffolds_to_compare kw = Inr cmds"
    and "c \<in> set cmds" "\<not> lost (cmd_scaffold c)"
    and "scaffold_profile_wrapper gen_model g c = FailedFrame"
  shows "compare_scaffolds gen_model g lost names Sprofiles scaffolds_to_compare s2l kw
           = Inl KeyError"
proof -
  let ?w = "scaffold_profile_wrapper gen_model g"
  have a: "FailedFrame \<in> set (map ?w (filter (\<lambda>c. \<not> lost (cmd_scaffold c)) cmds))"
    using assms(2,3,4) by force
  have b: "FailedFrame \<in> set (map ?w cmds)"
    using assms(2,4) by force
  show ?thesis
    using assms(1) profile_name_FailedFrame[OF a] profile_name_FailedFrame[OF b]
    by (simp add: compare_scaffolds_def Let_def)
qed

text \<open>
  Claim C3 at a failing input. Scaffold \<^verbatim>\<open>chr1\<close> compares well; on \<^verbatim>\<open>chr2\<close> the comparison
  raises, and the wrapper returns the one-row data frame. Reading \<^verbatim>\<open>s[3]\<close> of that frame
  to find the skipped scaffolds raises \<open>KeyError\<close>, so \<^verbatim>\<open>compare_scaffolds\<close> neither
  retries \<^verbatim>\<open>chr2\<close> nor returns the rows of \<^verbatim>\<open>chr1\<close>, with one process and with the
  default six.
\<close>

theorem compare_scaffolds_failed_marker:
  "scaffold_profile_wrapper w_gen_model None
      \<lparr>cmd_scaffold = ''chr1'', cmd_names = [''A'', ''B''], cmd_sProfiles = [w_profA2, w_profB2],
       cmd_arguments = w_kwargs\<lparr>kw_processes := Some 1\<rparr>, cmd_mLen = 100\<rparr>
     = Profile [w_row0, w_row1] [] [] ''chr1''
   \<and> scaffold_profile_wrapper w_gen_model None
      \<lparr>cmd_scaffold = ''chr2'', cmd_names = [''A'', ''B''], cmd_sProfiles = [w_profA2, w_profB2],
       cmd_arguments = w_kwargs\<lparr>kw_processes := Some 1\<rparr>, cmd_mLen = 50\<rparr>
     = FailedFrame
   \<and> compare_scaffolds w_gen_model None (\<lambda>s. False) [''A'', ''B''] [w_profA2, w_profB2]
        [''chr1'', ''chr2''] w_s2l (w_kwargs\<lparr>kw_processes := Some 1\<rparr>) = Inl KeyError
   \<and> compare_scaffolds w_gen_model None (\<lambda>s. False) [''A'', ''B''] [w_profA2, w_profB2]
        [''chr1'', ''chr2''] w_s2l w_kwargs = Inl KeyError"
  by code_simp

text \<open>The retry is reached when a future of the process pool raised: nothing was appended
  for its scaffold, and the second pass compares it.\<close>

lemma compare_scaffolds_retry_lost:
  "compare_scaffolds w_gen_model None (\<lambda>s. s = ''chr1'') [''A'', ''B''] [w_profA, w_profB]
        [''chr1''] w_s2l w_kwargs = Inr ([w_row0, w_row1], [], [(''chr1'', [])])"
  by code_simp

text \<open>With the minimum frequency 5 no count within the depth passes the present test.\<close>

lemma is_present_min_freq_5:
  assumes "counts \<le> tot"
  shows "is_present counts tot model 5 \<noteq> Inr True"
proof (cases "model tot")
  case None
  then show ?thesis by (simp add: is_present_def)
next
  case (Some thr)
  have "real counts / real tot \<le> 1"
    using assms by (cases "tot = 0") (simp_all add: divide_le_eq_1)
  then have "\<not> 5 \<le> real counts / real tot" by simp
  with Some show ?thesis by (simp add: is_present_def)
qed

text \<open>
  Claim C8 at a failing input. Without a \<^verbatim>\<open>min_freq\<close> argument \<^verbatim>\<open>compare_scaffold\<close> uses
  the minimum frequency 5, not 0.05: at position 10 the 4 reference reads of 10 are then not
  "present" and the position counts as a population SNP, which it does not with 0.05.
\<close>

theorem compare_scaffold_min_freq_default:
  "kwargs_get (kw_min_freq w_kwargs) (5::real) = 5
   \<and> compare_scaffold w_gen_model None ''chr1'' [''A'', ''B''] [w_profA, w_profB] 100 w_kwargs
       = Inr (Profile [w_row0, w_row1] [] [] ''chr1'')
   \<and> population_SNPs w_row0 = 1
   \<and> compare_scaffold w_gen_model None ''chr1'' [''A'', ''B''] [w_profA, w_profB] 100
         (w_kwargs\<lparr>kw_min_freq := Some (1 / 20)\<rparr>)
       = Inr (Profile [w_row0\<lparr>population_SNPs := 0, popANI := Some 1\<rparr>,
                       w_row1\<lparr>population_SNPs := 0, popANI := Some 1\<rparr>] [] [] ''chr1'')"
  by code_simp

text \<open>
  Claim C2 at a failing input. The table has rows at position 10 for the levels 0 and 3. At
  level 0 the rows considered hold the row of level 3: no row is left out for its level.
\<close>

theorem level_rows_ignore_level:
  "get_SNP_table None w_profC ''chr1'' ''C'' = Inr [w_snv_mm0, w_snv_mm3]
   \<and> level_rows [w_snv_mm0, w_snv_mm3] {10} = [w_snv_mm3]
   \<and> level_Mdb [] [w_snv_mm0, w_snv_mm3] w_model (1 / 20) (0, {10})
       = Inr [\<lparr>m_row = \<lparr>pos = 10, side1 = None, side2 = Some w_snv_mm3\<rparr>,
               consensus_SNP = True, population_SNP = False, m_mm = 0\<rparr>]"
  by code_simp

end
